theory Spec2Isabelle
  imports Complex_Main
begin

section \<open>Values shared by the two modules\<close>

text \<open>
  Python floats are idealised as HOL reals throughout: \<open>+\<close>, \<open>-\<close>, \<open>*\<close>, \<open>/\<close>,
  \<open>exp\<close>, \<open>cos\<close> and \<open>sin\<close> are the exact operations, so rounding, infinities and NaN are
  outside the model.  Exceptions are values of \<open>py_error\<close>; a function that can raise
  returns \<open>py_error + 'a\<close> with \<open>Inl\<close> for the exception.
\<close>

datatype py_error =
    ValueError string
  | KeyError
  | AttributeError
  | TypeError
  | IndexError

subsection \<open>numpy arrays that are shared by reference\<close>

text \<open>
  A numpy array is an object: two names can denote the same array, and a write through one
  is seen through the other.  The store holds every array that was allocated; an array is
  named by its address, which is its index in the store.  \<open>np_array\<close> is \<open>np.array(t)\<close> for a
  pair \<open>t\<close>: it allocates a fresh two-element array.  \<open>ndarray_setitem\<close> is the assignment
  \<open>a[i] = v\<close> a holder of the array can make.
\<close>

type_synonym addr = nat
type_synonym heap = "real list list"

definition np_array :: "real \<times> real \<Rightarrow> heap \<Rightarrow> addr \<times> heap" where
  "np_array t h = (length h, h @ [[fst t, snd t]])"

definition ndarray_setitem :: "heap \<Rightarrow> addr \<Rightarrow> nat \<Rightarrow> real \<Rightarrow> py_error + heap" where
  "ndarray_setitem h a i v =
     (if a < length h \<and> i < length (h ! a) then Inr (h[a := (h ! a)[i := v]])
      else Inl IndexError)"

subsection \<open>The random source\<close>

text \<open>
  \<open>numpy.random.RandomState\<close> is not part of the repository.  It is a parameter of the
  model: a state type \<open>'r\<close> and the four operations the code calls, each returning the
  sample together with the advanced state.  \<open>rs_choice n\<close> draws an index into a population
  of size \<open>n\<close>.  \<open>rng_ok\<close> writes down the part of numpy's contract that the control flow
  relies on: \<open>rand()\<close> lies in the half-open unit interval and \<open>choice\<close> returns a member of
  the population.
\<close>

record 'r rng =
  rs_seed :: "int \<Rightarrow> 'r"
  rs_rand :: "'r \<Rightarrow> real \<times> 'r"
  rs_normal :: "real \<Rightarrow> real \<Rightarrow> 'r \<Rightarrow> real \<times> 'r"
  rs_choice :: "nat \<Rightarrow> 'r \<Rightarrow> nat \<times> 'r"

definition rng_ok :: "'r rng \<Rightarrow> bool" where
  "rng_ok g \<longleftrightarrow>
     (\<forall>r. 0 \<le> fst (rs_rand g r) \<and> fst (rs_rand g r) < 1) \<and>
     (\<forall>n r. 0 < n \<longrightarrow> fst (rs_choice g n r) < n)"

definition RandomState :: "'r rng \<Rightarrow> int \<Rightarrow> py_error + 'r" where
  "RandomState g seed =
     (if 0 \<le> seed \<and> seed < 2 ^ 32 then Inr (rs_seed g seed)
      else Inl (ValueError ''Seed must be between 0 and 2**32 - 1''))"

definition choice :: "'r rng \<Rightarrow> 'a list \<Rightarrow> 'r \<Rightarrow> 'a \<times> 'r" where
  "choice g xs r = (case rs_choice g (length xs) r of (i, r') \<Rightarrow> (xs ! i, r'))"

section \<open>path\_integration/controller.py\<close>

subsection \<open>WalkingState and RandomExplorationController\<close>

datatype WalkingState = FORWARD | TURN_LEFT | TURN_RIGHT | STOP

text \<open>
  The attributes of a controller.  \<open>curr_state_start_time\<close> is not assigned by
  \<open>__init__\<close>; \<open>None\<close> stands for the attribute not existing yet, and reading it then raises
  \<open>AttributeError\<close>.  \<open>curr_turn_duration\<close> is \<open>_curr_turn_duration\<close>, whose \<open>None\<close> is
  Python's.  \<open>dn_drives\<close> is the dictionary from states to the arrays built at construction;
  it holds the arrays by reference, that is, their addresses.
\<close>

record 'r controller =
  random_state :: 'r
  dt :: real
  init_time :: real
  curr_time :: real
  curr_state :: WalkingState
  curr_turn_duration :: "real option"
  curr_state_start_time :: "real option"
  dn_drives :: "WalkingState \<rightharpoonup> addr"
  turn_duration_mean :: real
  turn_duration_std :: real
  lambda_turn :: real

text \<open>
  \<open>__init__(dt, forward_dn_drive, left_turn_dn_drive, right_turn_dn_drive,
  turn_duration_mean, turn_duration_std, lambda_turn, seed, init_time)\<close>, run in a store
  \<open>h\<close>.  The three \<open>np.array\<close> calls allocate in the order of the dictionary display.
\<close>

definition controller_init ::
  "'r rng \<Rightarrow> real \<Rightarrow> real \<times> real \<Rightarrow> real \<times> real \<Rightarrow> real \<times> real \<Rightarrow> real \<Rightarrow> real \<Rightarrow> real \<Rightarrow>
     int \<Rightarrow> real \<Rightarrow> heap \<Rightarrow> py_error + ('r controller \<times> heap)" where
  "controller_init g dt0 forward_dn_drive left_turn_dn_drive right_turn_dn_drive
       mean std lam seed init_time0 h =
     (case RandomState g seed of
        Inl e \<Rightarrow> Inl e
      | Inr rs \<Rightarrow>
          (case np_array forward_dn_drive h of (a_fwd, h1) \<Rightarrow>
           case np_array left_turn_dn_drive h1 of (a_left, h2) \<Rightarrow>
           case np_array right_turn_dn_drive h2 of (a_right, h3) \<Rightarrow>
             Inr (\<lparr> random_state = rs,
                    dt = dt0,
                    init_time = init_time0,
                    curr_time = 0,
                    curr_state = FORWARD,
                    curr_turn_duration = None,
                    curr_state_start_time = None,
                    dn_drives = [FORWARD \<mapsto> a_fwd, TURN_LEFT \<mapsto> a_left,
                                 TURN_RIGHT \<mapsto> a_right],
                    turn_duration_mean = mean,
                    turn_duration_std = std,
                    lambda_turn = lam \<rparr>, h3)))"

text \<open>
  \<open>step\<close>, lines 54 to 64: the forward-to-turn transition.  Nothing here can raise.
\<close>

definition forward_to_turn :: "'r rng \<Rightarrow> 'r controller \<Rightarrow> 'r controller" where
  "forward_to_turn g c =
     (if curr_state c = FORWARD then
        (let p_nochange = exp (- lambda_turn c * dt c) in
         case rs_rand g (random_state c) of (u, r1) \<Rightarrow>
           if u > p_nochange then
             (case rs_normal g (turn_duration_mean c) (turn_duration_std c) r1 of (d, r2) \<Rightarrow>
              case choice g [TURN_LEFT, TURN_RIGHT] r2 of (s, r3) \<Rightarrow>
                c\<lparr> random_state := r3,
                   curr_turn_duration := Some d,
                   curr_state := s,
                   curr_state_start_time := Some (curr_time c) \<rparr>)
           else c\<lparr> random_state := r1 \<rparr>)
      else c)"

text \<open>
  \<open>step\<close>, lines 66 to 70: the turn-to-forward transition.  The subtraction reads
  \<open>curr_state_start_time\<close> first, then the comparison reads \<open>_curr_turn_duration\<close>.
\<close>

definition turn_to_forward :: "'r controller \<Rightarrow> py_error + 'r controller" where
  "turn_to_forward c =
     (if curr_state c = TURN_LEFT \<or> curr_state c = TURN_RIGHT then
        (case curr_state_start_time c of
           None \<Rightarrow> Inl AttributeError
         | Some t0 \<Rightarrow>
             (case curr_turn_duration c of
                None \<Rightarrow> Inl TypeError
              | Some d \<Rightarrow>
                  if curr_time c - t0 > d then
                    Inr (c\<lparr> curr_state := FORWARD,
                            curr_state_start_time := Some (curr_time c) \<rparr>)
                  else Inr c))
      else Inr c)"

text \<open>
  \<open>step\<close>.  The result is the returned pair (the state and the array \<open>dn_drives\<close> holds for
  it, by reference) and the controller after the call.  A dictionary lookup of a missing key
  raises \<open>KeyError\<close>.
\<close>

definition step ::
  "'r rng \<Rightarrow> 'r controller \<Rightarrow> py_error + ((WalkingState \<times> addr) \<times> 'r controller)" where
  "step g c =
     (if curr_time c < init_time c then
        (let c1 = c\<lparr> curr_time := curr_time c + dt c \<rparr> in
         case dn_drives c1 FORWARD of
           None \<Rightarrow> Inl KeyError
         | Some a \<Rightarrow> Inr ((FORWARD, a), c1))
      else
        (case turn_to_forward (forward_to_turn g c) of
           Inl e \<Rightarrow> Inl e
         | Inr c2 \<Rightarrow>
             (let c3 = c2\<lparr> curr_time := curr_time c2 + dt c2 \<rparr> in
              case dn_drives c3 (curr_state c3) of
                None \<Rightarrow> Inl KeyError
              | Some a \<Rightarrow> Inr ((curr_state c3, a), c3))))"

text \<open>
  A driver that calls \<open>step()\<close> \<open>n\<close> times in a row and collects what the calls return; it
  stops at the first exception.
\<close>

fun steps ::
  "'r rng \<Rightarrow> nat \<Rightarrow> 'r controller \<Rightarrow> py_error + ((WalkingState \<times> addr) list \<times> 'r controller)" where
  "steps g 0 c = Inr ([], c)"
| "steps g (Suc n) c =
     (case step g c of
        Inl e \<Rightarrow> Inl e
      | Inr (out, c1) \<Rightarrow>
          (case steps g n c1 of
             Inl e \<Rightarrow> Inl e
           | Inr (outs, c2) \<Rightarrow> Inr (out # outs, c2)))"

text \<open>
  The condition under which the comparison of line 68 can be evaluated: in a turning state
  both attributes it reads have been assigned.
\<close>

definition turn_ready :: "'r controller \<Rightarrow> bool" where
  "turn_ready c \<longleftrightarrow>
     (curr_state c = TURN_LEFT \<or> curr_state c = TURN_RIGHT \<longrightarrow>
        curr_turn_duration c \<noteq> None \<and> curr_state_start_time c \<noteq> None)"

text \<open>
  What the generator state can become when the only thing ever done to it is to draw from
  it: \<open>draws g r r'\<close> holds when \<open>r'\<close> is reached from \<open>r\<close> by some sequence of \<open>rand\<close>,
  \<open>normal\<close> and \<open>choice\<close> draws.  Seeding is not among the rules.
\<close>

inductive draws :: "'r rng \<Rightarrow> 'r \<Rightarrow> 'r \<Rightarrow> bool" for g :: "'r rng" where
  draws_none: "draws g r r"
| draws_rand: "draws g r r1 \<Longrightarrow> draws g r (snd (rs_rand g r1))"
| draws_normal: "draws g r r1 \<Longrightarrow> draws g r (snd (rs_normal g m sd r1))"
| draws_choice: "draws g r r1 \<Longrightarrow> draws g r (snd (rs_choice g n r1))"

text \<open>
  What a caller can see of a run: the returned states with the values of the returned
  arrays (read in the store \<open>h\<close>), and the controller at the end with everything but the
  addresses in \<open>dn_drives\<close>.  \<open>same_drives\<close> says that two controllers hold equal drive
  values for the same states, possibly in different arrays.
\<close>

definition observed ::
  "heap \<Rightarrow> py_error + ((WalkingState \<times> addr) list \<times> 'r controller) \<Rightarrow>
     py_error + ((WalkingState \<times> real list) list \<times> 'r controller)" where
  "observed h res =
     (case res of
        Inl e \<Rightarrow> Inl e
      | Inr (outs, c) \<Rightarrow>
          Inr (map (\<lambda>out. (fst out, h ! snd out)) outs, c\<lparr> dn_drives := Map.empty \<rparr>))"

definition same_drives :: "heap \<Rightarrow> 'r controller \<Rightarrow> 'r controller \<Rightarrow> bool" where
  "same_drives h c1 c2 \<longleftrightarrow>
     (\<forall>s. map_option (\<lambda>a. h ! a) (dn_drives c1 s) = map_option (\<lambda>a. h ! a) (dn_drives c2 s))"

subsection \<open>PathIntegrationNMF\<close>

text \<open>
  Arrays of shape \<open>(N, 2)\<close> are lists of rows, each row a pair; arrays of shape
  \<open>(N, 3)\<close> are lists of triples.  \<open>xy\<close> is the slice \<open>[:2]\<close> of a row of three.
\<close>

type_synonym vec2 = "real \<times> real"
type_synonym vec3 = "real \<times> real \<times> real"
type_synonym mat2 = "vec2 \<times> vec2"

definition xy :: "vec3 \<Rightarrow> vec2" where
  "xy v = (fst v, fst (snd v))"

definition vsub :: "vec2 \<Rightarrow> vec2 \<Rightarrow> vec2" where
  "vsub p q = (fst p - fst q, snd p - snd q)"

definition vadd :: "vec2 \<Rightarrow> vec2 \<Rightarrow> vec2" where
  "vadd p q = (fst p + fst q, snd p + snd q)"

text \<open>
  The numpy functions \<open>absolute_to_relative_pos\<close> calls.  \<open>linalg_norm\<close> is the Euclidean
  norm of a 2-vector.  \<open>arctan2 y x\<close> is the angle of the point \<open>(x, y)\<close> in the interval from
  \<open>-pi\<close> to \<open>pi\<close>, with numpy's value \<open>0\<close> at the origin.  \<open>transpose2\<close> is \<open>.T\<close> on a
  2-by-2 matrix given by its rows, and \<open>dot\<close> is \<open>np.dot\<close> of an \<open>(N, 2)\<close> array with a
  2-by-2 matrix: every row times the matrix.
\<close>

definition linalg_norm :: "vec2 \<Rightarrow> real" where
  "linalg_norm v = sqrt (fst v * fst v + snd v * snd v)"

definition arctan2 :: "real \<Rightarrow> real \<Rightarrow> real" where
  "arctan2 y x =
     (if 0 < x then arctan (y / x)
      else if x < 0 then (if 0 \<le> y then arctan (y / x) + pi else arctan (y / x) - pi)
      else if 0 < y then pi / 2
      else if y < 0 then - (pi / 2)
      else 0)"

definition transpose2 :: "mat2 \<Rightarrow> mat2" where
  "transpose2 m = ((fst (fst m), fst (snd m)), (snd (fst m), snd (snd m)))"

definition dot :: "vec2 list \<Rightarrow> mat2 \<Rightarrow> vec2 list" where
  "dot rows m =
     map (\<lambda>p. (fst p * fst (fst m) + snd p * fst (snd m),
                fst p * snd (fst m) + snd p * snd (snd m))) rows"

text \<open>
  \<open>absolute_to_relative_pos\<close>, lines 107 to 114.  \<open>heading_angle\<close> is lines 108 and 109:
  the heading is normalised, then its angle is taken.  For a zero heading numpy divides by
  zero and the result is NaN, which the reals do not have; the theorems about the values of
  the transform are stated for non-zero headings.
\<close>

definition heading_angle :: "vec2 \<Rightarrow> real" where
  "heading_angle heading =
     (let n = linalg_norm heading;
          heading' = (fst heading / n, snd heading / n)
      in arctan2 (snd heading') (fst heading'))"

definition absolute_to_relative_pos :: "vec2 list \<Rightarrow> vec2 \<Rightarrow> vec2 \<Rightarrow> vec2 list" where
  "absolute_to_relative_pos pos base_pos heading =
     (let rel_pos = map (\<lambda>p. vsub p base_pos) pos;
          angle = heading_angle heading;
          rot_matrix = ((cos (- angle), - sin (- angle)), (sin (- angle), cos (- angle)));
          pos_rotated = dot rel_pos (transpose2 rot_matrix)
      in pos_rotated)"

text \<open>
  Rotation of a point by an angle, counter-clockwise: the rotation that the transform
  undoes.  It is the textbook rotation, not a function of the source.
\<close>

definition rotate_by :: "real \<Rightarrow> vec2 \<Rightarrow> vec2" where
  "rotate_by t p = (fst p * cos t - snd p * sin t, fst p * sin t + snd p * cos t)"

text \<open>
  \<open>np.zeros_like\<close> keeps the shape.  \<open>ndarray_sub\<close> is \<open>-\<close> on two arrays of shapes
  \<open>(N, 2)\<close> and \<open>(M, 2)\<close> with numpy's broadcasting: equal row counts subtract row by row, a
  single row is repeated against the other operand, anything else raises \<open>ValueError\<close>.
\<close>

definition zeros_like :: "vec2 list \<Rightarrow> vec2 list" where
  "zeros_like m = replicate (length m) (0, 0)"

definition ndarray_sub :: "vec2 list \<Rightarrow> vec2 list \<Rightarrow> py_error + vec2 list" where
  "ndarray_sub a b =
     (if length a = length b then Inr (map2 vsub a b)
      else if length a = 1 then Inr (map (\<lambda>q. vsub (hd a) q) b)
      else if length b = 1 then Inr (map (\<lambda>p. vsub p (hd b)) a)
      else Inl (ValueError ''operands could not be broadcast together''))"

text \<open>
  The observation dictionary, with the keys \<open>step\<close> reads and the one it adds (\<open>None\<close> while
  the key is absent).  \<open>fly\<close> is the array whose row 0 is the position of the fly.
\<close>

record observation =
  fly :: "vec3 list"
  end_effectors :: "vec3 list"
  fly_orientation :: vec3
  stride_diff_unmasked :: "vec2 list option"

record nmf =
  last_end_effector_pos :: "vec2 list option"
  total_stride_lengths_hist :: "real list list"
  heading_estimate_hist :: "real list"
  pos_estimate_hist :: "vec2 list"

text \<open>
  The part of \<open>__init__\<close> that belongs to this class (lines 79 to 82); the state of the
  superclass \<open>HybridTurningController\<close> is outside the repository's sources.
\<close>

definition nmf_init :: nmf where
  "nmf_init =
     \<lparr> last_end_effector_pos = None,
       total_stride_lengths_hist = [],
       heading_estimate_hist = [],
       pos_estimate_hist = [] \<rparr>"

text \<open>
  \<open>PathIntegrationNMF.step\<close>, lines 88 to 101, applied to the observation \<open>obs\<close> that
  \<open>super().step(action)\<close> returned; reward, termination flags and info are passed through
  unchanged and left out.  \<open>obs["fly"][0, :2]\<close> raises \<open>IndexError\<close> on an array without
  rows.  The camera update of line 88 acts on the arena only.
\<close>

definition nmf_step :: "nmf \<Rightarrow> observation \<Rightarrow> py_error + (observation \<times> nmf)" where
  "nmf_step self obs =
     (case fly obs of
        [] \<Rightarrow> Inl IndexError
      | fly0 # _ \<Rightarrow>
          (let ee_pos_rel =
                 absolute_to_relative_pos (map xy (end_effectors obs)) (xy fly0)
                   (xy (fly_orientation obs))
           in case (case last_end_effector_pos self of
                      None \<Rightarrow> Inr (zeros_like ee_pos_rel)
                    | Some prev \<Rightarrow> ndarray_sub ee_pos_rel prev) of
                Inl e \<Rightarrow> Inl e
              | Inr ee_diff \<Rightarrow>
                  Inr (obs\<lparr> stride_diff_unmasked := Some ee_diff \<rparr>,
                       self\<lparr> last_end_effector_pos := Some ee_pos_rel \<rparr>)))"

text \<open>
  The agent-centric end-effector positions that \<open>step\<close> computes from an observation
  (lines 91 to 93), for an observation whose \<open>fly\<close> array has a row 0.
\<close>

definition ee_pos_rel_of :: "observation \<Rightarrow> vec2 list" where
  "ee_pos_rel_of obs =
     absolute_to_relative_pos (map xy (end_effectors obs)) (xy (hd (fly obs)))
       (xy (fly_orientation obs))"

section \<open>vision\_connectome\_model/arena.py\<close>

text \<open>
  \<open>MovingFlyArena.__init__\<close> builds a scene through objects that are not part of the
  repository's sources: \<open>BaseArena.__init__\<close>, the \<open>mjcf\<close> element tree, \<open>Fly\<close>, and numpy
  inside the loop over blocks.  These calls are parameters of the model: each takes the
  scene \<open>'w\<close> under construction and returns the extended scene or an exception \<open>'e\<close> of its
  own.  An exception leaving \<open>__init__\<close> is \<open>Raised\<close> when a \<open>raise\<close> statement of
  \<open>arena.py\<close> produced it and \<open>Propagated\<close> when it came out of one of these calls.
\<close>

datatype 'e raised = Raised py_error | Propagated 'e

record ('w, 'e) scene_ops =
  base_arena_init :: "'e + 'w"
  add_flat_ground :: "vec3 \<Rightarrow> 'w \<Rightarrow> 'e + 'w"
  add_blocks_ground :: "vec2 \<Rightarrow> vec2 \<Rightarrow> real \<Rightarrow> vec2 \<Rightarrow> int \<Rightarrow> real \<Rightarrow> vec3 \<Rightarrow> 'w \<Rightarrow> 'e + 'w"
  add_fly_and_cameras :: "vec3 \<Rightarrow> 'w \<Rightarrow> 'e + 'w"

text \<open>
  The attributes \<open>__init__\<close> assigns.  \<open>arena_curr_time\<close> is \<open>curr_time\<close>.  The four
  attributes of the blocks terrain exist only when that branch ran.  \<open>prev_pos\<close> is the
  complex number \<open>_prev_pos\<close> as a pair.
\<close>

record arena =
  terrain :: string
  init_fly_pos :: vec3
  fly_pos :: vec3
  friction :: vec3
  move_speed :: real
  arena_curr_time :: real
  move_direction :: string
  lateral_magnitude :: real
  y_mult :: int
  x_range :: "vec2 option"
  y_range :: "vec2 option"
  block_size :: "real option"
  height_range :: "vec2 option"
  prev_pos :: vec2

text \<open>
  Lines 65 to 72.  \<open>np.random.choice\<close> draws from numpy's global generator, whose state
  \<open>np_random\<close> is threaded through.
\<close>

definition choose_y_mult :: "'r rng \<Rightarrow> string \<Rightarrow> 'r \<Rightarrow> py_error + (int \<times> 'r)" where
  "choose_y_mult g move_direction0 np_random =
     (if move_direction0 = ''left'' then Inr (1, np_random)
      else if move_direction0 = ''right'' then Inr (- 1, np_random)
      else if move_direction0 = ''random'' then Inr (choice g [- 1, 1] np_random)
      else Inl (ValueError ''Invalid move_direction''))"

text \<open>
  Lines 75 to 139: the ground.  The result tells which terrain attributes were set.
\<close>

definition add_ground ::
  "('w, 'e) scene_ops \<Rightarrow> string \<Rightarrow> vec2 \<Rightarrow> vec2 \<Rightarrow> real \<Rightarrow> vec2 \<Rightarrow> int \<Rightarrow> real \<Rightarrow> vec3 \<Rightarrow> 'w \<Rightarrow>
     'e raised + ('w \<times> bool)" where
  "add_ground ops terrain0 x_range0 y_range0 block_size0 height_range0 rand_seed ground_alpha
       friction0 w =
     (if terrain0 = ''flat'' then
        (case add_flat_ground ops friction0 w of
           Inl e \<Rightarrow> Inl (Propagated e)
         | Inr w1 \<Rightarrow> Inr (w1, False))
      else if terrain0 = ''blocks'' then
        (case add_blocks_ground ops x_range0 y_range0 block_size0 height_range0 rand_seed
                ground_alpha friction0 w of
           Inl e \<Rightarrow> Inl (Propagated e)
         | Inr w1 \<Rightarrow> Inr (w1, True))
      else Inl (Raised (ValueError (''Invalid terrain '' @ [CHR 0x27] @ terrain0 @ [CHR 0x27]))))"

text \<open>
  \<open>__init__(terrain, x_range, y_range, block_size, height_range, rand_seed, ground_alpha,
  friction, obj_radius, init_fly_pos, move_speed, move_direction, lateral_magnitude)\<close>.  The
  result pairs the outcome with the state of the global generator, which outlives a failed
  construction.
\<close>

definition arena_init ::
  "'r rng \<Rightarrow> ('w, 'e) scene_ops \<Rightarrow> string \<Rightarrow> vec2 \<Rightarrow> vec2 \<Rightarrow> real \<Rightarrow> vec2 \<Rightarrow> int \<Rightarrow> real \<Rightarrow> vec3 \<Rightarrow>
     real \<Rightarrow> vec2 \<Rightarrow> real \<Rightarrow> string \<Rightarrow> real \<Rightarrow> 'r \<Rightarrow> ('e raised + (arena \<times> 'w)) \<times> 'r" where
  "arena_init g ops terrain0 x_range0 y_range0 block_size0 height_range0 rand_seed ground_alpha
       friction0 obj_radius init_fly_pos0 move_speed0 move_direction0 lateral_magnitude0
       np_random =
     (case base_arena_init ops of
        Inl e \<Rightarrow> (Inl (Propagated e), np_random)
      | Inr w0 \<Rightarrow>
          (let pos3 = (fst init_fly_pos0, snd init_fly_pos0, obj_radius) in
           case choose_y_mult g move_direction0 np_random of
             Inl e \<Rightarrow> (Inl (Raised e), np_random)
           | Inr (ym, r1) \<Rightarrow>
               (case add_ground ops terrain0 x_range0 y_range0 block_size0 height_range0
                       rand_seed ground_alpha friction0 w0 of
                  Inl e \<Rightarrow> (Inl e, r1)
                | Inr (w1, blocks) \<Rightarrow>
                    (case add_fly_and_cameras ops pos3 w1 of
                       Inl e \<Rightarrow> (Inl (Propagated e), r1)
                     | Inr w2 \<Rightarrow>
                         (Inr (\<lparr> terrain = terrain0,
                                 init_fly_pos = pos3,
                                 fly_pos = pos3,
                                 friction = friction0,
                                 move_speed = move_speed0,
                                 arena_curr_time = 0,
                                 move_direction = move_direction0,
                                 lateral_magnitude = lateral_magnitude0,
                                 y_mult = ym,
                                 x_range = (if blocks then Some x_range0 else None),
                                 y_range = (if blocks then Some y_range0 else None),
                                 block_size = (if blocks then Some block_size0 else None),
                                 height_range = (if blocks then Some height_range0 else None),
                                 prev_pos = xy pos3 \<rparr>, w2), r1)))))"

text \<open>
  The options the two chains of comparisons accept.
\<close>

definition valid_move_direction :: "string \<Rightarrow> bool" where
  "valid_move_direction d \<longleftrightarrow> d = ''left'' \<or> d = ''right'' \<or> d = ''random''"

definition valid_terrain :: "string \<Rightarrow> bool" where
  "valid_terrain t \<longleftrightarrow> t = ''flat'' \<or> t = ''blocks''"

section \<open>A small random source and controllers for the worked examples\<close>

text \<open>
  A deterministic stand-in for numpy's generator: the state is a counter, \<open>rand\<close> walks
  through the tenths, \<open>normal\<close> through five points around the mean, and \<open>choice\<close> takes
  the counter modulo the population size.  It satisfies \<open>rng_ok\<close>.
\<close>

definition demo_rng :: "nat rng" where
  "demo_rng =
     \<lparr> rs_seed = (\<lambda>seed. nat seed),
       rs_rand = (\<lambda>r. (real (r mod 10) / 10, Suc r)),
       rs_normal = (\<lambda>m sd r. (m + sd * (real (r mod 5) - 2), Suc r)),
       rs_choice = (\<lambda>n r. (r mod n, Suc r)) \<rparr>"

text \<open>
  The controller that \<open>RandomExplorationController(dt=1, turn_duration_std=sd, seed=9,
  init_time=it)\<close> builds in an empty store with \<open>demo_rng\<close> (the other parameters at their
  defaults), and the store after the construction.
\<close>

definition demo_controller :: "real \<Rightarrow> real \<Rightarrow> nat controller" where
  "demo_controller it sd =
     \<lparr> random_state = 9,
       dt = 1,
       init_time = it,
       curr_time = 0,
       curr_state = FORWARD,
       curr_turn_duration = None,
       curr_state_start_time = None,
       dn_drives = [FORWARD \<mapsto> 0, TURN_LEFT \<mapsto> 1, TURN_RIGHT \<mapsto> 2],
       turn_duration_mean = 2 / 5,
       turn_duration_std = sd,
       lambda_turn = 1 \<rparr>"

definition demo_heap :: heap where
  "demo_heap = [[1, 1], [- 2 / 5, 6 / 5], [6 / 5, - 2 / 5]]"

text \<open>
  \<open>demo_controller 0 (1 / 10)\<close> after its first call: a right turn of duration \<open>1 / 5\<close>
  began at time \<open>0\<close>.
\<close>

definition demo_turning :: "nat controller" where
  "demo_turning =
     (demo_controller 0 (1 / 10))
       \<lparr> random_state := 12, curr_turn_duration := Some (1 / 5), curr_state := TURN_RIGHT,
          curr_state_start_time := Some 0, curr_time := 1 \<rparr>"

text \<open>
  An observation with two end effectors, the fly at the origin heading along \<open>+x\<close>; scene
  operations that never fail and record the names of what they add; and the arena that
  \<open>MovingFlyArena(move_direction="left")\<close> builds with them.
\<close>

definition demo_obs :: "real \<Rightarrow> observation" where
  "demo_obs x =
     \<lparr> fly = [(0, 0, 1), (0, 0, 0), (0, 0, 0), (0, 0, 0)],
       end_effectors = [(x, 1, 0), (x + 1, - 1, 0)],
       fly_orientation = (1, 0, 0),
       stride_diff_unmasked = None \<rparr>"

definition demo_scene :: "(string list, unit) scene_ops" where
  "demo_scene =
     \<lparr> base_arena_init = Inr [],
       add_flat_ground = (\<lambda>f w. Inr (w @ [''ground''])),
       add_blocks_ground = (\<lambda>xr yr bs hr seed alpha f w. Inr (w @ [''base_plane''])),
       add_fly_and_cameras = (\<lambda>p w. Inr (w @ [''fly'', ''birdeye_cam'', ''birdeye_cam_zoom''])) \<rparr>"

definition demo_arena :: arena where
  "demo_arena =
     \<lparr> terrain = ''flat'',
       init_fly_pos = (5, 0, 1),
       fly_pos = (5, 0, 1),
       friction = (1, 1 / 200, 1 / 10000),
       move_speed = 10,
       arena_curr_time = 0,
       move_direction = ''left'',
       lateral_magnitude = 2,
       y_mult = 1,
       x_range = None,
       y_range = None,
       block_size = None,
       height_range = None,
       prev_pos = (5, 0) \<rparr>"

section \<open>Facts about the worked examples\<close>

lemma rng_ok_demo: "rng_ok demo_rng"
  by (simp add: rng_ok_def demo_rng_def)

lemma demo_init:
  "controller_init demo_rng 1 (1, 1) (- 2 / 5, 6 / 5) (6 / 5, - 2 / 5) (2 / 5) sd 1 9 it [] =
     Inr (demo_controller it sd, demo_heap)"
  by (simp add: controller_init_def RandomState_def np_array_def demo_rng_def
      demo_controller_def demo_heap_def numeral_2_eq_2)

lemma exp_minus_one_bound: "exp (- 1 :: real) < 9 / 10"
proof -
  have "(2::real) \<le> exp 1"
    using exp_ge_add_one_self [of "1::real"] by simp
  then have "exp (- 1 :: real) \<le> 1 / 2"
    by (simp add: exp_minus field_simps)
  then show ?thesis by simp
qed

lemma demo_draws:
  "rs_rand demo_rng 9 = (9 / 10, 10)"
  "rs_normal demo_rng (2 / 5) (1 / 10) 10 = (1 / 5, 11)"
  "rs_normal demo_rng (2 / 5) (3 / 10) 10 = (- 1 / 5, 11)"
  "choice demo_rng [TURN_LEFT, TURN_RIGHT] 11 = (TURN_RIGHT, 12)"
  by (simp_all add: demo_rng_def choice_def numeral_2_eq_2 [symmetric])

lemma demo_rate: "exp (- lambda_turn (demo_controller it sd) * dt (demo_controller it sd)) < 9 / 10"
  using exp_minus_one_bound by (simp add: demo_controller_def)

section \<open>RandomExplorationController: what every call preserves\<close>

lemma step_dn_drives: "step g c = Inr (out, c') \<Longrightarrow> dn_drives c' = dn_drives c"
  by (auto simp: step_def forward_to_turn_def turn_to_forward_def Let_def
      split: if_splits option.splits sum.splits prod.splits)

lemma steps_dn_drives: "steps g n c = Inr (outs, c') \<Longrightarrow> dn_drives c' = dn_drives c"
proof (induction n arbitrary: c outs)
  case 0
  then show ?case by simp
next
  case (Suc n)
  then show ?case
    by (auto split: sum.splits prod.splits dest!: step_dn_drives)
qed

lemma init_dn_drives:
  "controller_init g dt0 fwd l r m sd lam seed it h = Inr (c0, h0) \<Longrightarrow>
     dn_drives c0 = [FORWARD \<mapsto> length h, TURN_LEFT \<mapsto> Suc (length h),
                     TURN_RIGHT \<mapsto> Suc (Suc (length h))] \<and>
     h0 = h @ [[fst fwd, snd fwd], [fst l, snd l], [fst r, snd r]]"
  by (auto simp: controller_init_def np_array_def split: sum.splits)

lemma choice_two:
  assumes "rng_ok g" and "choice g [TURN_LEFT, TURN_RIGHT] r = (s, r')"
  shows "s = TURN_LEFT \<or> s = TURN_RIGHT"
proof -
  have "fst (rs_choice g (Suc (Suc 0)) r) < Suc (Suc 0)"
    using assms(1) by (simp add: rng_ok_def)
  then have "fst (rs_choice g (Suc (Suc 0)) r) = 0 \<or> fst (rs_choice g (Suc (Suc 0)) r) = Suc 0"
    by arith
  with assms(2) show ?thesis
    by (auto simp: choice_def split: prod.splits)
qed

lemma rand_lt_one: "rng_ok g \<Longrightarrow> rs_rand g r = (u, r1) \<Longrightarrow> u < 1"
  by (auto simp: rng_ok_def dest: spec [of _ r])

lemma forward_to_turn_time [simp]: "curr_time (forward_to_turn g c) = curr_time c"
  by (simp add: forward_to_turn_def Let_def split: prod.splits)

lemma forward_to_turn_frame [simp]:
  "dn_drives (forward_to_turn g c) = dn_drives c"
  "dt (forward_to_turn g c) = dt c"
  "init_time (forward_to_turn g c) = init_time c"
  "lambda_turn (forward_to_turn g c) = lambda_turn c"
  by (simp_all add: forward_to_turn_def Let_def split: prod.splits)

lemma forward_to_turn_ready: "turn_ready c \<Longrightarrow> turn_ready (forward_to_turn g c)"
  by (auto simp: forward_to_turn_def turn_ready_def Let_def split: prod.splits)

lemma turn_to_forward_ready:
  "turn_ready c \<Longrightarrow> \<exists>c2. turn_to_forward c = Inr c2 \<and> turn_ready c2 \<and>
     dn_drives c2 = dn_drives c \<and> (curr_state c2 = curr_state c \<or> curr_state c2 = FORWARD)"
  by (auto simp: turn_to_forward_def turn_ready_def)

lemma step_ready:
  assumes "turn_ready c"
  shows "step g c \<noteq> Inl AttributeError" and "step g c \<noteq> Inl TypeError"
    and "step g c = Inr (out, c') \<Longrightarrow> turn_ready c'"
proof -
  obtain c2 where c2: "turn_to_forward (forward_to_turn g c) = Inr c2" "turn_ready c2"
    using turn_to_forward_ready [OF forward_to_turn_ready [OF assms]] by blast
  show "step g c \<noteq> Inl AttributeError" "step g c \<noteq> Inl TypeError"
    using c2 by (auto simp: step_def Let_def split: option.splits)
  show "turn_ready c'" if "step g c = Inr (out, c')"
    using that c2 assms
    by (auto simp: step_def Let_def turn_ready_def split: option.splits if_splits)
qed

lemma steps_ready:
  "turn_ready c \<Longrightarrow>
     steps g n c \<noteq> Inl AttributeError \<and> steps g n c \<noteq> Inl TypeError \<and>
     (\<forall>outs c'. steps g n c = Inr (outs, c') \<longrightarrow> turn_ready c')"
proof (induction n arbitrary: c)
  case 0
  then show ?case by simp
next
  case (Suc n)
  show ?case
  proof (cases "step g c")
    case (Inl e)
    with step_ready(1,2) [OF Suc.prems, of g] show ?thesis by auto
  next
    case (Inr p)
    obtain out c1 where p: "p = (out, c1)" by (cases p)
    from step_ready(3) [OF Suc.prems] Inr p have "turn_ready c1" by simp
    from Suc.IH [OF this] Inr p show ?thesis
      by (auto split: sum.splits)
  qed
qed

lemma init_ready:
  "controller_init g dt0 fwd l r m sd lam seed it h = Inr (c0, h0) \<Longrightarrow>
     turn_ready c0 \<and> curr_state c0 = FORWARD \<and> lambda_turn c0 = lam"
  by (auto simp: controller_init_def np_array_def turn_ready_def split: sum.splits)

lemma forward_to_turn_fires:
  assumes "curr_state c = FORWARD" and "rs_rand g (random_state c) = (u, r1)"
    and "u > exp (- lambda_turn c * dt c)"
    and "rs_normal g (turn_duration_mean c) (turn_duration_std c) r1 = (d, r2)"
    and "choice g [TURN_LEFT, TURN_RIGHT] r2 = (s, r3)"
  shows "forward_to_turn g c =
     c\<lparr> random_state := r3, curr_turn_duration := Some d, curr_state := s,
        curr_state_start_time := Some (curr_time c) \<rparr>"
  using assms by (simp add: forward_to_turn_def)

lemma step_never_stop:
  assumes "rng_ok g" and "curr_state c \<noteq> STOP" and "turn_ready c"
    and "\<forall>s. s \<noteq> STOP \<longrightarrow> dn_drives c s \<noteq> None"
  shows "\<exists>out c'. step g c = Inr (out, c') \<and> fst out \<noteq> STOP \<and>
     dn_drives c (fst out) = Some (snd out) \<and> curr_state c' \<noteq> STOP \<and> turn_ready c' \<and>
     dn_drives c' = dn_drives c"
proof (cases "curr_time c < init_time c")
  case True
  from assms(4) obtain a where "dn_drives c FORWARD = Some a" by auto
  with True assms(2,3) show ?thesis
    by (simp add: step_def turn_ready_def)
next
  case False
  have ns: "curr_state (forward_to_turn g c) \<noteq> STOP"
    using assms(2) choice_two [OF assms(1)]
    by (auto simp: forward_to_turn_def Let_def split: prod.splits)
  obtain c2 where c2: "turn_to_forward (forward_to_turn g c) = Inr c2" "turn_ready c2"
      "dn_drives c2 = dn_drives c"
      "curr_state c2 = curr_state (forward_to_turn g c) \<or> curr_state c2 = FORWARD"
    using turn_to_forward_ready [OF forward_to_turn_ready [OF assms(3)], of g] by auto
  from c2(4) ns have ns2: "curr_state c2 \<noteq> STOP" by auto
  with assms(4) c2(3) obtain a where a: "dn_drives c2 (curr_state c2) = Some a" by auto
  from False c2 ns2 a show ?thesis
    by (simp add: step_def turn_ready_def)
qed

lemma steps_never_stop:
  assumes "rng_ok g"
  shows "curr_state c \<noteq> STOP \<Longrightarrow> turn_ready c \<Longrightarrow> \<forall>s. s \<noteq> STOP \<longrightarrow> dn_drives c s \<noteq> None \<Longrightarrow>
     \<exists>outs c'. steps g n c = Inr (outs, c') \<and> curr_state c' \<noteq> STOP \<and>
       (\<forall>out \<in> set outs. fst out \<noteq> STOP \<and> dn_drives c (fst out) = Some (snd out)) \<and>
       dn_drives c' = dn_drives c"
proof (induction n arbitrary: c)
  case 0
  then show ?case by simp
next
  case (Suc n)
  from step_never_stop [OF assms Suc.prems]
  obtain out c1 where s: "step g c = Inr (out, c1)" "fst out \<noteq> STOP"
      "dn_drives c (fst out) = Some (snd out)" "curr_state c1 \<noteq> STOP" "turn_ready c1"
      "dn_drives c1 = dn_drives c" by blast
  from Suc.prems(3) s(6) have "\<forall>s. s \<noteq> STOP \<longrightarrow> dn_drives c1 s \<noteq> None" by simp
  from Suc.IH [OF s(4,5) this]
  obtain outs c' where r: "steps g n c1 = Inr (outs, c')" "curr_state c' \<noteq> STOP"
      "\<forall>out \<in> set outs. fst out \<noteq> STOP \<and> dn_drives c1 (fst out) = Some (snd out)"
      "dn_drives c' = dn_drives c1" by blast
  from s r show ?case by auto
qed

lemma step_no_turn:
  assumes "rng_ok g" and "lambda_turn c = 0" and "curr_state c = FORWARD"
    and "dn_drives c FORWARD = Some a"
  shows "\<exists>c'. step g c = Inr ((FORWARD, a), c') \<and> lambda_turn c' = 0 \<and>
     curr_state c' = FORWARD \<and> dn_drives c' FORWARD = Some a"
proof (cases "curr_time c < init_time c")
  case True
  with assms show ?thesis by (simp add: step_def)
next
  case False
  obtain u r1 where u: "rs_rand g (random_state c) = (u, r1)"
    by (cases "rs_rand g (random_state c)")
  from rand_lt_one [OF assms(1) u] have "\<not> u > 1" by simp
  with u assms(2,3) have "forward_to_turn g c = c\<lparr> random_state := r1 \<rparr>"
    by (simp add: forward_to_turn_def)
  with False assms show ?thesis
    by (simp add: step_def turn_to_forward_def)
qed

lemma steps_no_turn:
  assumes "rng_ok g"
  shows "lambda_turn c = 0 \<Longrightarrow> curr_state c = FORWARD \<Longrightarrow> dn_drives c FORWARD = Some a \<Longrightarrow>
     \<exists>c'. steps g n c = Inr (replicate n (FORWARD, a), c') \<and> curr_state c' = FORWARD"
proof (induction n arbitrary: c)
  case 0
  then show ?case by simp
next
  case (Suc n)
  from step_no_turn [OF assms Suc.prems]
  obtain c1 where s: "step g c = Inr ((FORWARD, a), c1)" "lambda_turn c1 = 0"
      "curr_state c1 = FORWARD" "dn_drives c1 FORWARD = Some a" by blast
  from Suc.IH [OF s(2,3,4)] s(1) show ?case by auto
qed

subsection \<open>The first calls of the example controllers\<close>

lemma demo_fires:
  "forward_to_turn demo_rng (demo_controller 0 sd) =
     (demo_controller 0 sd)
       \<lparr> random_state := 12, curr_turn_duration := Some (2 / 5 - 2 * sd),
          curr_state := TURN_RIGHT, curr_state_start_time := Some 0 \<rparr>"
proof -
  let ?c = "demo_controller 0 sd"
  have "rs_normal demo_rng (turn_duration_mean ?c) (turn_duration_std ?c) 10 =
      (2 / 5 - 2 * sd, 11)"
    by (simp add: demo_rng_def demo_controller_def)
  moreover have "rs_rand demo_rng (random_state ?c) = (9 / 10, 10)"
    by (simp add: demo_rng_def demo_controller_def)
  moreover have "curr_state ?c = FORWARD" "curr_time ?c = 0"
    by (simp_all add: demo_controller_def)
  ultimately show ?thesis
    using forward_to_turn_fires [of ?c demo_rng "9 / 10" 10 "2 / 5 - 2 * sd" 11 TURN_RIGHT 12]
      demo_rate [of 0 sd] demo_draws(4)
    by simp
qed

lemma demo_first_step:
  "step demo_rng (demo_controller 0 (1 / 10)) = Inr ((TURN_RIGHT, 2), demo_turning)"
proof -
  have "forward_to_turn demo_rng (demo_controller 0 (1 / 10)) =
      (demo_controller 0 (1 / 10))
        \<lparr> random_state := 12, curr_turn_duration := Some (1 / 5),
           curr_state := TURN_RIGHT, curr_state_start_time := Some 0 \<rparr>"
    using demo_fires [of "1 / 10"] by simp
  then show ?thesis
    by (simp add: step_def turn_to_forward_def demo_turning_def demo_controller_def)
qed

lemma demo_turning_idle: "forward_to_turn demo_rng demo_turning = demo_turning"
  by (simp add: forward_to_turn_def demo_turning_def)

section \<open>The settling phase\<close>

text \<open>
  C1.  A call made while \<open>curr_time < init_time\<close> returns \<open>FORWARD\<close> with the array stored
  for \<open>FORWARD\<close>, and the controller after the call differs from the one before only in
  \<open>curr_time\<close>, which grew by \<open>dt\<close>: in particular \<open>random_state\<close> is the same, so no sample
  was drawn, whatever the generator and its seed.  For a controller reached from its
  construction by any number of calls, the array stored for \<open>FORWARD\<close> is the one allocated
  at construction, which holds the configured forward drive.
\<close>

theorem settling_step:
  "(curr_time c < init_time c \<longrightarrow> dn_drives c FORWARD = Some a \<longrightarrow>
      step g c = Inr ((FORWARD, a), c\<lparr> curr_time := curr_time c + dt c \<rparr>)) \<and>
   (controller_init g dt0 fwd l r m sd lam seed it h = Inr (c0, h0) \<longrightarrow>
      steps g n c0 = Inr (outs, c) \<longrightarrow>
      dn_drives c FORWARD = Some (length h) \<and> h0 ! length h = [fst fwd, snd fwd])"
proof (intro conjI impI)
  assume "curr_time c < init_time c" "dn_drives c FORWARD = Some a"
  then show "step g c = Inr ((FORWARD, a), c\<lparr> curr_time := curr_time c + dt c \<rparr>)"
    by (simp add: step_def)
next
  assume i: "controller_init g dt0 fwd l r m sd lam seed it h = Inr (c0, h0)"
    and s: "steps g n c0 = Inr (outs, c)"
  from steps_dn_drives [OF s] init_dn_drives [OF i]
  show "dn_drives c FORWARD = Some (length h)" by simp
next
  assume i: "controller_init g dt0 fwd l r m sd lam seed it h = Inr (c0, h0)"
  from init_dn_drives [OF i] show "h0 ! length h = [fst fwd, snd fwd]" by simp
qed

theorem settling_step_witness:
  "curr_time (demo_controller (1 / 10) (1 / 10)) < init_time (demo_controller (1 / 10) (1 / 10)) \<and>
   dn_drives (demo_controller (1 / 10) (1 / 10)) FORWARD = Some 0 \<and>
   step demo_rng (demo_controller (1 / 10) (1 / 10)) =
     Inr ((FORWARD, 0), (demo_controller (1 / 10) (1 / 10))\<lparr> curr_time := 1 \<rparr>) \<and>
   controller_init demo_rng 1 (1, 1) (- 2 / 5, 6 / 5) (6 / 5, - 2 / 5) (2 / 5) (1 / 10) 1 9
       (1 / 10) [] = Inr (demo_controller (1 / 10) (1 / 10), demo_heap) \<and>
   steps demo_rng 0 (demo_controller (1 / 10) (1 / 10)) =
     Inr ([], demo_controller (1 / 10) (1 / 10)) \<and>
   demo_heap ! 0 = [1, 1]"
  using settling_step [of "demo_controller (1 / 10) (1 / 10)" 0 demo_rng
      1 "(1, 1)" "(- 2 / 5, 6 / 5)" "(6 / 5, - 2 / 5)" "2 / 5" "1 / 10" 1 9 "1 / 10" "[]"
      "demo_controller (1 / 10) (1 / 10)" demo_heap 0 "[]"]
    demo_init [of "1 / 10" "1 / 10"]
  by (simp add: demo_controller_def)

section \<open>The forward-to-turn transition\<close>

text \<open>
  C2.  A call past the settling phase in state \<open>FORWARD\<close> draws one uniform sample \<open>u\<close>.
  If \<open>u\<close> does not exceed \<open>exp (- lambda_turn * dt)\<close>, that is the only draw: the call
  returns \<open>FORWARD\<close> and changes nothing but the generator state and the time.  If \<open>u\<close>
  exceeds it, the transition sets the turn duration to the normal sample \<open>d\<close> as drawn (no
  clamping), the state to the element \<open>s\<close> that \<open>choice\<close> picked from \<open>TURN_LEFT\<close> and
  \<open>TURN_RIGHT\<close>, and the start time to the time before the advance; the duration, the start
  time and the generator state are still those after the call.  With a generator that keeps
  numpy's contract the state after the transition code is a turn exactly when \<open>u\<close> exceeds
  the threshold.  With \<open>lambda_turn = 0\<close> every one of \<open>n\<close> calls after construction
  returns \<open>FORWARD\<close>, for every \<open>n\<close>.  That the choice is uniform is a statement about
  probabilities, which the model does not have.
\<close>

theorem forward_to_turn_transition:
  "(\<not> curr_time c < init_time c \<longrightarrow> curr_state c = FORWARD \<longrightarrow>
      rs_rand g (random_state c) = (u, r1) \<longrightarrow>
      rs_normal g (turn_duration_mean c) (turn_duration_std c) r1 = (d, r2) \<longrightarrow>
      choice g [TURN_LEFT, TURN_RIGHT] r2 = (s, r3) \<longrightarrow>
        (\<not> u > exp (- lambda_turn c * dt c) \<longrightarrow>
           forward_to_turn g c = c\<lparr> random_state := r1 \<rparr> \<and>
           (dn_drives c FORWARD = Some a \<longrightarrow>
              step g c =
                Inr ((FORWARD, a), c\<lparr> random_state := r1, curr_time := curr_time c + dt c \<rparr>))) \<and>
        (u > exp (- lambda_turn c * dt c) \<longrightarrow>
           forward_to_turn g c =
             c\<lparr> random_state := r3, curr_turn_duration := Some d, curr_state := s,
                curr_state_start_time := Some (curr_time c) \<rparr> \<and>
           (\<forall>out c'. step g c = Inr (out, c') \<longrightarrow>
              random_state c' = r3 \<and> curr_turn_duration c' = Some d \<and>
              curr_state_start_time c' = Some (curr_time c) \<and>
              curr_time c' = curr_time c + dt c)) \<and>
        (rng_ok g \<longrightarrow>
           (s = TURN_LEFT \<or> s = TURN_RIGHT) \<and>
           (curr_state (forward_to_turn g c) = TURN_LEFT \<or>
            curr_state (forward_to_turn g c) = TURN_RIGHT \<longleftrightarrow>
              u > exp (- lambda_turn c * dt c)))) \<and>
   (rng_ok g \<longrightarrow> controller_init g dt0 fwd l r m sd 0 seed it h = Inr (c0, h0) \<longrightarrow>
      (\<exists>c'. steps g n c0 = Inr (replicate n (FORWARD, length h), c') \<and>
            curr_state c' = FORWARD))"
proof (intro conjI impI allI)
  assume a: "\<not> curr_time c < init_time c" "curr_state c = FORWARD"
    "rs_rand g (random_state c) = (u, r1)"
    "\<not> u > exp (- lambda_turn c * dt c)"
  then show f: "forward_to_turn g c = c\<lparr> random_state := r1 \<rparr>"
    by (simp add: forward_to_turn_def)
  assume "dn_drives c FORWARD = Some a"
  with a f show "step g c =
      Inr ((FORWARD, a), c\<lparr> random_state := r1, curr_time := curr_time c + dt c \<rparr>)"
    by (simp add: step_def turn_to_forward_def)
next
  assume a: "\<not> curr_time c < init_time c" "curr_state c = FORWARD"
    "rs_rand g (random_state c) = (u, r1)"
    "rs_normal g (turn_duration_mean c) (turn_duration_std c) r1 = (d, r2)"
    "choice g [TURN_LEFT, TURN_RIGHT] r2 = (s, r3)"
    "u > exp (- lambda_turn c * dt c)"
  then show f: "forward_to_turn g c =
      c\<lparr> random_state := r3, curr_turn_duration := Some d, curr_state := s,
         curr_state_start_time := Some (curr_time c) \<rparr>"
    by (simp add: forward_to_turn_def)
  fix out c'
  assume st: "step g c = Inr (out, c')"
  with a(1) f show "random_state c' = r3" "curr_turn_duration c' = Some d"
    "curr_state_start_time c' = Some (curr_time c)" "curr_time c' = curr_time c + dt c"
    by (auto simp: step_def turn_to_forward_def Let_def
        split: if_splits option.splits sum.splits)
next
  assume "rng_ok g" "choice g [TURN_LEFT, TURN_RIGHT] r2 = (s, r3)"
  then show "s = TURN_LEFT \<or> s = TURN_RIGHT" by (rule choice_two)
next
  assume a: "curr_state c = FORWARD"
    "rs_rand g (random_state c) = (u, r1)"
    "rs_normal g (turn_duration_mean c) (turn_duration_std c) r1 = (d, r2)"
    "choice g [TURN_LEFT, TURN_RIGHT] r2 = (s, r3)"
    "rng_ok g"
  from choice_two [OF a(5,4)] a(1-4)
  show "curr_state (forward_to_turn g c) = TURN_LEFT \<or>
        curr_state (forward_to_turn g c) = TURN_RIGHT \<longleftrightarrow>
          u > exp (- lambda_turn c * dt c)"
    by (auto simp: forward_to_turn_def)
next
  assume g: "rng_ok g" and i: "controller_init g dt0 fwd l r m sd 0 seed it h = Inr (c0, h0)"
  from init_ready [OF i] init_dn_drives [OF i]
  have "lambda_turn c0 = 0" "curr_state c0 = FORWARD" "dn_drives c0 FORWARD = Some (length h)"
    by auto
  from steps_no_turn [OF g this]
  show "\<exists>c'. steps g n c0 = Inr (replicate n (FORWARD, length h), c') \<and> curr_state c' = FORWARD" .
qed

theorem forward_to_turn_transition_witness:
  "rng_ok demo_rng \<and>
   \<not> curr_time (demo_controller 0 (1 / 10)) < init_time (demo_controller 0 (1 / 10)) \<and>
   curr_state (demo_controller 0 (1 / 10)) = FORWARD \<and>
   rs_rand demo_rng (random_state (demo_controller 0 (1 / 10))) = (9 / 10, 10) \<and>
   9 / 10 > exp (- lambda_turn (demo_controller 0 (1 / 10)) * dt (demo_controller 0 (1 / 10))) \<and>
   forward_to_turn demo_rng (demo_controller 0 (1 / 10)) =
     (demo_controller 0 (1 / 10))
       \<lparr> random_state := 12, curr_turn_duration := Some (1 / 5), curr_state := TURN_RIGHT,
          curr_state_start_time := Some 0 \<rparr> \<and>
   controller_init demo_rng 1 (1, 1) (- 2 / 5, 6 / 5) (6 / 5, - 2 / 5) (2 / 5) (1 / 10) 0 9 0 [] =
     Inr ((demo_controller 0 (1 / 10))\<lparr> lambda_turn := 0 \<rparr>, demo_heap) \<and>
   (\<exists>c'. steps demo_rng 3 ((demo_controller 0 (1 / 10))\<lparr> lambda_turn := 0 \<rparr>) =
            Inr (replicate 3 (FORWARD, 0), c') \<and> curr_state c' = FORWARD)"
proof -
  let ?c = "demo_controller 0 (1 / 10)"
  have i: "controller_init demo_rng 1 (1, 1) (- 2 / 5, 6 / 5) (6 / 5, - 2 / 5) (2 / 5) (1 / 10)
      0 9 0 [] = Inr (?c\<lparr> lambda_turn := 0 \<rparr>, demo_heap)"
    by (simp add: controller_init_def RandomState_def np_array_def demo_rng_def
        demo_controller_def demo_heap_def numeral_2_eq_2)
  have r: "rs_rand demo_rng (random_state ?c) = (9 / 10, 10)"
    "rs_normal demo_rng (turn_duration_mean ?c) (turn_duration_std ?c) 10 = (1 / 5, 11)"
    using demo_draws by (simp_all add: demo_controller_def)
  have t: "\<not> curr_time ?c < init_time ?c" "curr_state ?c = FORWARD" "curr_time ?c = 0"
    by (simp_all add: demo_controller_def)
  from forward_to_turn_transition [of ?c demo_rng "9 / 10" 10 "1 / 5" 11 TURN_RIGHT 12 0
      1 "(1, 1)" "(- 2 / 5, 6 / 5)" "(6 / 5, - 2 / 5)" "2 / 5" "1 / 10" 9 0 "[]"
      "?c\<lparr> lambda_turn := 0 \<rparr>" demo_heap 3]
    rng_ok_demo i r t demo_draws(4) demo_rate [of 0 "1 / 10"]
  show ?thesis by simp
qed

section \<open>The turn-to-forward transition\<close>

text \<open>
  C3.  In a call past the settling phase whose state after the forward-to-turn code is a
  turn that began at \<open>t0\<close> with duration \<open>d\<close>: the time is still the time before the
  advance; if that time minus \<open>t0\<close> strictly exceeds \<open>d\<close> the call returns \<open>FORWARD\<close> with
  the forward drive, the state is \<open>FORWARD\<close> and the start time is the time before the
  advance; otherwise the turn and its drive are returned.  Either way the time advances by
  \<open>dt\<close> last.  Consequently a call in which a turn begins with a negative sampled duration
  returns \<open>FORWARD\<close> with the forward drive, and the controller is in state \<open>FORWARD\<close>
  afterwards.
\<close>

theorem turn_to_forward_transition:
  "(\<not> curr_time c < init_time c \<longrightarrow>
      curr_state (forward_to_turn g c) = TURN_LEFT \<or>
      curr_state (forward_to_turn g c) = TURN_RIGHT \<longrightarrow>
      curr_state_start_time (forward_to_turn g c) = Some t0 \<longrightarrow>
      curr_turn_duration (forward_to_turn g c) = Some d \<longrightarrow>
      dn_drives c FORWARD = Some a_fwd \<longrightarrow>
      dn_drives c (curr_state (forward_to_turn g c)) = Some a_turn \<longrightarrow>
        curr_time (forward_to_turn g c) = curr_time c \<and>
        step g c =
          (if curr_time c - t0 > d then
             Inr ((FORWARD, a_fwd),
                  (forward_to_turn g c)
                    \<lparr> curr_state := FORWARD, curr_state_start_time := Some (curr_time c),
                       curr_time := curr_time c + dt c \<rparr>)
           else
             Inr ((curr_state (forward_to_turn g c), a_turn),
                  (forward_to_turn g c)\<lparr> curr_time := curr_time c + dt c \<rparr>))) \<and>
   (rng_ok g \<longrightarrow> \<not> curr_time c < init_time c \<longrightarrow> curr_state c = FORWARD \<longrightarrow>
      rs_rand g (random_state c) = (u, r1) \<longrightarrow> u > exp (- lambda_turn c * dt c) \<longrightarrow>
      rs_normal g (turn_duration_mean c) (turn_duration_std c) r1 = (d', r2) \<longrightarrow> d' < 0 \<longrightarrow>
      choice g [TURN_LEFT, TURN_RIGHT] r2 = (s, r3) \<longrightarrow>
      dn_drives c FORWARD = Some a_fwd \<longrightarrow>
        step g c =
          Inr ((FORWARD, a_fwd),
               c\<lparr> random_state := r3, curr_turn_duration := Some d', curr_state := FORWARD,
                  curr_state_start_time := Some (curr_time c),
                  curr_time := curr_time c + dt c \<rparr>))"
proof (intro conjI impI)
  show "curr_time (forward_to_turn g c) = curr_time c" by simp
next
  assume a: "\<not> curr_time c < init_time c"
    "curr_state (forward_to_turn g c) = TURN_LEFT \<or> curr_state (forward_to_turn g c) = TURN_RIGHT"
    "curr_state_start_time (forward_to_turn g c) = Some t0"
    "curr_turn_duration (forward_to_turn g c) = Some d"
    "dn_drives c FORWARD = Some a_fwd"
    "dn_drives c (curr_state (forward_to_turn g c)) = Some a_turn"
  let ?c1 = "forward_to_turn g c"
  have t: "turn_to_forward ?c1 =
      Inr (if curr_time c - t0 > d
           then ?c1\<lparr> curr_state := FORWARD, curr_state_start_time := Some (curr_time c) \<rparr>
           else ?c1)"
    using a(2,3,4) by (auto simp: turn_to_forward_def)
  show "step g c =
          (if curr_time c - t0 > d then
             Inr ((FORWARD, a_fwd),
                  ?c1\<lparr> curr_state := FORWARD, curr_state_start_time := Some (curr_time c),
                       curr_time := curr_time c + dt c \<rparr>)
           else
             Inr ((curr_state ?c1, a_turn), ?c1\<lparr> curr_time := curr_time c + dt c \<rparr>))"
    using a(1,5,6) by (simp add: step_def t)
next
  assume a: "rng_ok g" "\<not> curr_time c < init_time c" "curr_state c = FORWARD"
    "rs_rand g (random_state c) = (u, r1)" "u > exp (- lambda_turn c * dt c)"
    "rs_normal g (turn_duration_mean c) (turn_duration_std c) r1 = (d', r2)" "d' < 0"
    "choice g [TURN_LEFT, TURN_RIGHT] r2 = (s, r3)"
    "dn_drives c FORWARD = Some a_fwd"
  have f: "forward_to_turn g c =
      c\<lparr> random_state := r3, curr_turn_duration := Some d', curr_state := s,
         curr_state_start_time := Some (curr_time c) \<rparr>"
    using a(3,4,5,6,8) by (rule forward_to_turn_fires)
  from choice_two [OF a(1,8)] a(2,7,9)
  show "step g c =
          Inr ((FORWARD, a_fwd),
               c\<lparr> random_state := r3, curr_turn_duration := Some d', curr_state := FORWARD,
                  curr_state_start_time := Some (curr_time c),
                  curr_time := curr_time c + dt c \<rparr>)"
    by (auto simp: step_def f turn_to_forward_def)
qed

theorem turn_to_forward_transition_witness:
  "\<not> curr_time demo_turning < init_time demo_turning \<and>
   curr_state (forward_to_turn demo_rng demo_turning) = TURN_RIGHT \<and>
   curr_state_start_time (forward_to_turn demo_rng demo_turning) = Some 0 \<and>
   curr_turn_duration (forward_to_turn demo_rng demo_turning) = Some (1 / 5) \<and>
   dn_drives demo_turning FORWARD = Some 0 \<and>
   dn_drives demo_turning TURN_RIGHT = Some 2 \<and>
   curr_time demo_turning - 0 > 1 / 5 \<and>
   step demo_rng demo_turning =
     Inr ((FORWARD, 0),
          demo_turning\<lparr> curr_state := FORWARD, curr_state_start_time := Some 1,
                         curr_time := 2 \<rparr>) \<and>
   rng_ok demo_rng \<and>
   curr_state (demo_controller 0 (3 / 10)) = FORWARD \<and>
   rs_rand demo_rng (random_state (demo_controller 0 (3 / 10))) = (9 / 10, 10) \<and>
   9 / 10 > exp (- lambda_turn (demo_controller 0 (3 / 10)) * dt (demo_controller 0 (3 / 10))) \<and>
   rs_normal demo_rng (turn_duration_mean (demo_controller 0 (3 / 10)))
     (turn_duration_std (demo_controller 0 (3 / 10))) 10 = (- 1 / 5, 11) \<and>
   choice demo_rng [TURN_LEFT, TURN_RIGHT] 11 = (TURN_RIGHT, 12) \<and>
   step demo_rng (demo_controller 0 (3 / 10)) =
     Inr ((FORWARD, 0),
          (demo_controller 0 (3 / 10))
            \<lparr> random_state := 12, curr_turn_duration := Some (- 1 / 5), curr_state := FORWARD,
               curr_state_start_time := Some 0, curr_time := 1 \<rparr>)"
proof -
  let ?c = "demo_controller 0 (3 / 10)"
  have p1: "\<not> curr_time demo_turning < init_time demo_turning"
    "curr_state demo_turning = TURN_RIGHT" "curr_state_start_time demo_turning = Some 0"
    "curr_turn_duration demo_turning = Some (1 / 5)" "dn_drives demo_turning FORWARD = Some 0"
    "dn_drives demo_turning TURN_RIGHT = Some 2" "curr_time demo_turning = 1"
    "dt demo_turning = 1"
    by (simp_all add: demo_turning_def demo_controller_def)
  have p2: "\<not> curr_time ?c < init_time ?c" "curr_state ?c = FORWARD"
    "rs_rand demo_rng (random_state ?c) = (9 / 10, 10)"
    "rs_normal demo_rng (turn_duration_mean ?c) (turn_duration_std ?c) 10 = (- 1 / 5, 11)"
    "dn_drives ?c FORWARD = Some 0" "curr_time ?c = 0" "dt ?c = 1"
    by (simp_all add: demo_controller_def demo_rng_def)
  from turn_to_forward_transition [where c = demo_turning and g = demo_rng and ?t0.0 = 0
      and d = "1 / 5" and a_fwd = 0 and a_turn = 2]
    p1 demo_turning_idle
  have s1: "step demo_rng demo_turning =
     Inr ((FORWARD, 0),
          demo_turning\<lparr> curr_state := FORWARD, curr_state_start_time := Some 1,
                         curr_time := 2 \<rparr>)"
    by simp
  from turn_to_forward_transition [where c = ?c and g = demo_rng and u = "9 / 10" and ?r1.0 = 10
      and d' = "- 1 / 5" and ?r2.0 = 11 and s = TURN_RIGHT and ?r3.0 = 12 and a_fwd = 0]
    p2 rng_ok_demo demo_rate [of 0 "3 / 10"] demo_draws(4)
  have s2: "step demo_rng ?c =
     Inr ((FORWARD, 0),
          ?c\<lparr> random_state := 12, curr_turn_duration := Some (- 1 / 5), curr_state := FORWARD,
               curr_state_start_time := Some 0, curr_time := 1 \<rparr>)"
    by simp
  from s1 s2 p1 p2 demo_turning_idle rng_ok_demo demo_rate [of 0 "3 / 10"] demo_draws(4)
  show ?thesis by simp
qed

section \<open>STOP is unreachable\<close>

text \<open>
  C7.  After construction and any number \<open>n\<close> of calls, with a generator that keeps numpy's
  contract: all \<open>n\<close> calls return, every returned state and the current state are among
  \<open>FORWARD\<close>, \<open>TURN_LEFT\<close> and \<open>TURN_RIGHT\<close>, every returned drive is the entry of
  \<open>dn_drives\<close> for the returned state, and the lookup for the current state is defined
  although \<open>dn_drives\<close> has no entry for \<open>STOP\<close>.
\<close>

theorem stop_unreachable:
  "rng_ok g \<longrightarrow> controller_init g dt0 fwd l r m sd lam seed it h = Inr (c0, h0) \<longrightarrow>
     (\<exists>outs c. steps g n c0 = Inr (outs, c) \<and>
        curr_state c \<in> {FORWARD, TURN_LEFT, TURN_RIGHT} \<and>
        (\<forall>out \<in> set outs. fst out \<in> {FORWARD, TURN_LEFT, TURN_RIGHT} \<and>
                            dn_drives c0 (fst out) = Some (snd out)) \<and>
        dn_drives c STOP = None \<and> dn_drives c (curr_state c) \<noteq> None)"
proof (intro impI)
  assume g: "rng_ok g" and i: "controller_init g dt0 fwd l r m sd lam seed it h = Inr (c0, h0)"
  have ne: "s \<in> {FORWARD, TURN_LEFT, TURN_RIGHT} \<longleftrightarrow> s \<noteq> STOP" for s
    by (cases s) auto
  have "s \<noteq> STOP \<longrightarrow> dn_drives c0 s \<noteq> None" for s
    using init_dn_drives [OF i] by (cases s) auto
  then have d: "\<forall>s. s \<noteq> STOP \<longrightarrow> dn_drives c0 s \<noteq> None" "dn_drives c0 STOP = None"
    using init_dn_drives [OF i] by auto
  from init_ready [OF i] have "curr_state c0 \<noteq> STOP" "turn_ready c0" by auto
  from steps_never_stop [OF g this d(1), of n]
  obtain outs c where r: "steps g n c0 = Inr (outs, c)" "curr_state c \<noteq> STOP"
      "\<forall>out \<in> set outs. fst out \<noteq> STOP \<and> dn_drives c0 (fst out) = Some (snd out)"
      "dn_drives c = dn_drives c0" by blast
  with d show "\<exists>outs c. steps g n c0 = Inr (outs, c) \<and>
        curr_state c \<in> {FORWARD, TURN_LEFT, TURN_RIGHT} \<and>
        (\<forall>out \<in> set outs. fst out \<in> {FORWARD, TURN_LEFT, TURN_RIGHT} \<and>
                            dn_drives c0 (fst out) = Some (snd out)) \<and>
        dn_drives c STOP = None \<and> dn_drives c (curr_state c) \<noteq> None"
    unfolding ne by auto
qed

theorem stop_unreachable_witness:
  "rng_ok demo_rng \<and>
   controller_init demo_rng 1 (1, 1) (- 2 / 5, 6 / 5) (6 / 5, - 2 / 5) (2 / 5) (1 / 10) 1 9 0 [] =
     Inr (demo_controller 0 (1 / 10), demo_heap) \<and>
   (\<exists>outs c. steps demo_rng 2 (demo_controller 0 (1 / 10)) = Inr (outs, c) \<and>
        curr_state c \<in> {FORWARD, TURN_LEFT, TURN_RIGHT} \<and>
        (\<forall>out \<in> set outs. fst out \<in> {FORWARD, TURN_LEFT, TURN_RIGHT} \<and>
                            dn_drives (demo_controller 0 (1 / 10)) (fst out) = Some (snd out)) \<and>
        dn_drives c STOP = None \<and> dn_drives c (curr_state c) \<noteq> None)"
  using stop_unreachable [where g = demo_rng and ?dt0.0 = 1 and fwd = "(1, 1)"
      and l = "(- 2 / 5, 6 / 5)" and r = "(6 / 5, - 2 / 5)" and m = "2 / 5" and sd = "1 / 10"
      and lam = 1 and seed = 9 and it = 0 and h = "[]" and ?c0.0 = "demo_controller 0 (1 / 10)"
      and ?h0.0 = demo_heap and n = 2]
    rng_ok_demo demo_init [of "1 / 10" 0]
  by simp

section \<open>The turn-exit comparison is well defined\<close>

text \<open>
  C10.  After construction and any number of calls, whatever the generator: no call raised
  \<open>AttributeError\<close> or \<open>TypeError\<close>; in the controller reached, a turning state comes with
  an assigned \<open>_curr_turn_duration\<close> and \<open>curr_state_start_time\<close>; and the comparison of the
  next call evaluates without an exception.
\<close>

theorem turn_exit_well_defined:
  "controller_init g dt0 fwd l r m sd lam seed it h = Inr (c0, h0) \<longrightarrow>
     steps g n c0 \<noteq> Inl AttributeError \<and> steps g n c0 \<noteq> Inl TypeError \<and>
     (\<forall>outs c. steps g n c0 = Inr (outs, c) \<longrightarrow>
        turn_ready c \<and> (\<exists>c2. turn_to_forward (forward_to_turn g c) = Inr c2))"
proof
  assume "controller_init g dt0 fwd l r m sd lam seed it h = Inr (c0, h0)"
  then have "turn_ready c0" by (simp add: init_ready)
  from steps_ready [OF this, of g n]
  show "steps g n c0 \<noteq> Inl AttributeError \<and> steps g n c0 \<noteq> Inl TypeError \<and>
     (\<forall>outs c. steps g n c0 = Inr (outs, c) \<longrightarrow>
        turn_ready c \<and> (\<exists>c2. turn_to_forward (forward_to_turn g c) = Inr c2))"
    using turn_to_forward_ready [OF forward_to_turn_ready] by blast
qed

theorem turn_exit_well_defined_witness:
  "controller_init demo_rng 1 (1, 1) (- 2 / 5, 6 / 5) (6 / 5, - 2 / 5) (2 / 5) (1 / 10) 1 9 0 [] =
     Inr (demo_controller 0 (1 / 10), demo_heap) \<and>
   steps demo_rng 1 (demo_controller 0 (1 / 10)) = Inr ([(TURN_RIGHT, 2)], demo_turning) \<and>
   steps demo_rng 1 (demo_controller 0 (1 / 10)) \<noteq> Inl AttributeError \<and>
   steps demo_rng 1 (demo_controller 0 (1 / 10)) \<noteq> Inl TypeError \<and>
   curr_state demo_turning = TURN_RIGHT \<and>
   turn_ready demo_turning \<and>
   (\<exists>c2. turn_to_forward (forward_to_turn demo_rng demo_turning) = Inr c2)"
proof -
  have s: "steps demo_rng 1 (demo_controller 0 (1 / 10)) = Inr ([(TURN_RIGHT, 2)], demo_turning)"
    using demo_first_step by simp
  from turn_exit_well_defined [where g = demo_rng and ?dt0.0 = 1 and fwd = "(1, 1)"
      and l = "(- 2 / 5, 6 / 5)" and r = "(6 / 5, - 2 / 5)" and m = "2 / 5" and sd = "1 / 10"
      and lam = 1 and seed = 9 and it = 0 and h = "[]" and ?c0.0 = "demo_controller 0 (1 / 10)"
      and ?h0.0 = demo_heap and n = 1]
    demo_init [of "1 / 10" 0] s
  show ?thesis by (simp add: demo_turning_def)
qed

section \<open>The transform into the agent's frame\<close>

lemma cos_sin_square: "cos t * cos t + sin t * sin t = (1 :: real)"
  by (rule sin_cos_squared_add3)

lemma scale_cos_sin_square: "a * (cos t * cos t) + a * (sin t * sin t) = (a :: real)"
proof -
  have "a * (cos t * cos t) + a * (sin t * sin t) = a * (cos t * cos t + sin t * sin t)"
    by (simp only: distrib_left)
  then show ?thesis by (simp only: cos_sin_square mult_1_right)
qed

lemma rotate_by_inverse: "rotate_by (- t) (rotate_by t q) = q"
proof -
  obtain x y where q: "q = (x, y)" by (cases q)
  have 1: "(x * cos t - y * sin t) * cos t + (x * sin t + y * cos t) * sin t = x"
    using scale_cos_sin_square [of x t] by (simp add: algebra_simps)
  have 2: "(x * sin t + y * cos t) * cos t - (x * cos t - y * sin t) * sin t = y"
    using scale_cos_sin_square [of y t] by (simp add: algebra_simps)
  have "rotate_by (- t) (rotate_by t q) =
      ((x * cos t - y * sin t) * cos t + (x * sin t + y * cos t) * sin t,
       (x * sin t + y * cos t) * cos t - (x * cos t - y * sin t) * sin t)"
    by (simp add: q rotate_by_def)
  then show ?thesis by (simp only: 1 2 q)
qed

lemma rotate_by_inverse': "rotate_by t (rotate_by (- t) p) = p"
  using rotate_by_inverse [of "- t" p] by simp

lemma absolute_to_relative_pos_rows:
  "absolute_to_relative_pos pos base_pos heading =
     map (\<lambda>p. rotate_by (- heading_angle heading) (vsub p base_pos)) pos"
  by (simp add: absolute_to_relative_pos_def dot_def transpose2_def rotate_by_def Let_def
      comp_def)

lemma rotate_by_zero: "rotate_by 0 p = p"
  by (simp add: rotate_by_def)

lemma heading_angle_unit: "heading_angle (1, 0) = 0"
  by (simp add: heading_angle_def linalg_norm_def arctan2_def)

lemma vsub_vadd: "vsub (vadd b q) b = q"
  by (simp add: vsub_def vadd_def)

lemma arctan2_scale:
  assumes "0 < n"
  shows "arctan2 (y / n) (x / n) = arctan2 y x"
proof -
  from assms have r: "y / n / (x / n) = y / x" by simp
  from assms have s: "0 < x / n \<longleftrightarrow> 0 < x" "x / n < 0 \<longleftrightarrow> x < 0" "0 \<le> y / n \<longleftrightarrow> 0 \<le> y"
    "0 < y / n \<longleftrightarrow> 0 < y" "y / n < 0 \<longleftrightarrow> y < 0"
    by (simp_all add: zero_less_divide_iff divide_less_0_iff zero_le_divide_iff)
  show ?thesis by (simp only: arctan2_def r s)
qed

lemma heading_angle_arctan2:
  assumes "heading \<noteq> (0, 0)"
  shows "heading_angle heading = arctan2 (snd heading) (fst heading)"
proof -
  obtain x y where h: "heading = (x, y)" by (cases heading)
  from assms h have "x * x + y * y \<noteq> 0" by auto
  moreover have "0 \<le> x * x + y * y" by simp
  ultimately have "0 < x * x + y * y" by linarith
  then have "0 < linalg_norm heading" by (simp add: linalg_norm_def h)
  from arctan2_scale [OF this] show ?thesis
    by (simp add: heading_angle_def Let_def)
qed

text \<open>
  C8.  With origin \<open>(0, 0)\<close> and heading \<open>(1, 0)\<close> the transform returns its input.  For a
  non-zero heading, the angle the transform uses is the angle of the heading; points that
  were rotated by that angle and moved to the base position are mapped back to themselves;
  and rotating the output by that angle gives back the translated input.  The output has as
  many rows as the input, and row \<open>i\<close> of the output is the transform of row \<open>i\<close> of the
  input alone.  All of this is exact over the reals; the floating-point tolerance of the
  implementation is outside the model.
\<close>

theorem to_agent_frame:
  "absolute_to_relative_pos pos (0, 0) (1, 0) = pos \<and>
   (heading \<noteq> (0, 0) \<longrightarrow>
      heading_angle heading = arctan2 (snd heading) (fst heading) \<and>
      absolute_to_relative_pos
        (map (\<lambda>q. vadd base_pos (rotate_by (heading_angle heading) q)) qs) base_pos heading = qs \<and>
      map (rotate_by (heading_angle heading)) (absolute_to_relative_pos pos base_pos heading) =
        map (\<lambda>p. vsub p base_pos) pos) \<and>
   length (absolute_to_relative_pos pos base_pos heading) = length pos \<and>
   (\<forall>i < length pos.
      absolute_to_relative_pos [pos ! i] base_pos heading =
        [absolute_to_relative_pos pos base_pos heading ! i])"
proof (intro conjI impI allI)
  show "absolute_to_relative_pos pos (0, 0) (1, 0) = pos"
    by (simp add: absolute_to_relative_pos_rows heading_angle_unit vsub_def rotate_by_zero)
next
  assume "heading \<noteq> (0, 0)"
  then show "heading_angle heading = arctan2 (snd heading) (fst heading)"
    by (rule heading_angle_arctan2)
next
  show "absolute_to_relative_pos
        (map (\<lambda>q. vadd base_pos (rotate_by (heading_angle heading) q)) qs) base_pos heading = qs"
    unfolding absolute_to_relative_pos_rows
    by (simp add: comp_def vsub_vadd rotate_by_inverse)
next
  show "map (rotate_by (heading_angle heading)) (absolute_to_relative_pos pos base_pos heading) =
        map (\<lambda>p. vsub p base_pos) pos"
    unfolding absolute_to_relative_pos_rows
    by (simp add: comp_def rotate_by_inverse')
next
  show "length (absolute_to_relative_pos pos base_pos heading) = length pos"
    by (simp add: absolute_to_relative_pos_rows)
next
  fix i assume "i < length pos"
  then show "absolute_to_relative_pos [pos ! i] base_pos heading =
        [absolute_to_relative_pos pos base_pos heading ! i]"
    by (simp add: absolute_to_relative_pos_rows)
qed

theorem to_agent_frame_witness:
  "absolute_to_relative_pos [(1, 2), (3, 4)] (0, 0) (1, 0) = [(1, 2), (3, 4)] \<and>
   (0, 2) \<noteq> (0 :: real, 0 :: real) \<and>
   heading_angle (0, 2) = arctan2 2 0 \<and>
   absolute_to_relative_pos
     (map (\<lambda>q. vadd (5, 7) (rotate_by (heading_angle (0, 2)) q)) [(1, 2), (3, 4)]) (5, 7) (0, 2) =
     [(1, 2), (3, 4)] \<and>
   length (absolute_to_relative_pos [(1, 2), (3, 4)] (5, 7) (0, 2)) = 2 \<and>
   (1 :: nat) < length [(1 :: real, 2 :: real), (3, 4)] \<and>
   absolute_to_relative_pos [[(1, 2), (3, 4)] ! 1] (5, 7) (0, 2) =
     [absolute_to_relative_pos [(1, 2), (3, 4)] (5, 7) (0, 2) ! 1]"
proof -
  note t = to_agent_frame [where pos = "[(1, 2), (3, 4)]" and heading = "(0, 2)"
      and base_pos = "(5, 7)" and qs = "[(1, 2), (3, 4)]"]
  have ne: "(0, 2) \<noteq> (0 :: real, 0 :: real)" by simp
  from t have 1: "absolute_to_relative_pos [(1, 2), (3, 4)] (0, 0) (1, 0) = [(1, 2), (3, 4)]"
    by (rule conjunct1)
  from t ne have b: "heading_angle (0, 2) = arctan2 (snd (0 :: real, 2 :: real)) (fst (0 :: real, 2 :: real))"
    by blast
  then have 2: "heading_angle (0, 2) = arctan2 2 0"
    by (simp only: fst_conv snd_conv)
  from t ne have rt: "absolute_to_relative_pos
       (map (\<lambda>q. vadd (5, 7) (rotate_by (heading_angle (0, 2)) q)) [(1, 2), (3, 4)]) (5, 7) (0, 2) =
       [(1, 2), (3, 4)]"
    by blast
  from t have 3: "length (absolute_to_relative_pos [(1, 2), (3, 4)] (5, 7) (0, 2)) = 2"
    by simp
  have 5: "(1 :: nat) < length [(1 :: real, 2 :: real), (3, 4)]" by simp
  from t have "\<forall>i < length [(1 :: real, 2 :: real), (3, 4)].
      absolute_to_relative_pos [[(1, 2), (3, 4)] ! i] (5, 7) (0, 2) =
        [absolute_to_relative_pos [(1, 2), (3, 4)] (5, 7) (0, 2) ! i]"
    by blast
  with 5 have 4: "absolute_to_relative_pos [[(1, 2), (3, 4)] ! 1] (5, 7) (0, 2) =
        [absolute_to_relative_pos [(1, 2), (3, 4)] (5, 7) (0, 2) ! 1]"
    by blast
  from 1 2 rt 3 4 5 ne show ?thesis by blast
qed

section \<open>Stride differences\<close>

lemma length_absolute_to_relative_pos [simp]:
  "length (absolute_to_relative_pos pos base_pos heading) = length pos"
  by (simp add: absolute_to_relative_pos_def dot_def Let_def)

lemma length_ee_pos_rel_of [simp]: "length (ee_pos_rel_of obs) = length (end_effectors obs)"
  by (simp add: ee_pos_rel_of_def)

lemma nmf_step_first:
  assumes "fly obs \<noteq> []" and "last_end_effector_pos self = None"
  shows "nmf_step self obs =
     Inr (obs\<lparr> stride_diff_unmasked := Some (replicate (length (end_effectors obs)) (0, 0)) \<rparr>,
          self\<lparr> last_end_effector_pos := Some (ee_pos_rel_of obs) \<rparr>)"
  using assms
  by (cases "fly obs") (simp_all add: nmf_step_def ee_pos_rel_of_def zeros_like_def Let_def)

lemma nmf_step_later:
  assumes "fly obs \<noteq> []" and "last_end_effector_pos self = Some prev"
    and "length prev = length (end_effectors obs)"
  shows "nmf_step self obs =
     Inr (obs\<lparr> stride_diff_unmasked := Some (map2 vsub (ee_pos_rel_of obs) prev) \<rparr>,
          self\<lparr> last_end_effector_pos := Some (ee_pos_rel_of obs) \<rparr>)"
  using assms
  by (cases "fly obs")
    (simp_all add: nmf_step_def ee_pos_rel_of_def ndarray_sub_def Let_def)

lemma nmf_step_history:
  "nmf_step self obs = Inr (obs', self') \<Longrightarrow>
     fly obs \<noteq> [] \<and> last_end_effector_pos self' = Some (ee_pos_rel_of obs)"
  by (cases "fly obs")
    (auto simp: nmf_step_def ee_pos_rel_of_def Let_def split: option.splits sum.splits)

text \<open>
  C4.  The first call after construction returns, for whatever the wrapped step produced
  (as long as its \<open>fly\<close> array has a row 0 to read), a stride difference of all zeros with
  the shape of the agent-centric end-effector matrix.  A call that follows another call,
  with the same number of end effectors in both observations, returns the current
  agent-centric positions minus those of the previous call, row by row.  After every call
  that returns, \<open>_last_end_effector_pos\<close> holds the current agent-centric positions.
\<close>

theorem stride_difference:
  "(fly obs \<noteq> [] \<longrightarrow>
      nmf_step nmf_init obs =
        Inr (obs\<lparr> stride_diff_unmasked :=
                    Some (replicate (length (ee_pos_rel_of obs)) (0, 0)) \<rparr>,
             nmf_init\<lparr> last_end_effector_pos := Some (ee_pos_rel_of obs) \<rparr>)) \<and>
   (nmf_step self obs1 = Inr (obs1', self1) \<longrightarrow> fly obs2 \<noteq> [] \<longrightarrow>
    length (end_effectors obs2) = length (end_effectors obs1) \<longrightarrow>
      nmf_step self1 obs2 =
        Inr (obs2\<lparr> stride_diff_unmasked :=
                     Some (map2 vsub (ee_pos_rel_of obs2) (ee_pos_rel_of obs1)) \<rparr>,
             self1\<lparr> last_end_effector_pos := Some (ee_pos_rel_of obs2) \<rparr>)) \<and>
   (nmf_step self obs = Inr (obs', self') \<longrightarrow>
      last_end_effector_pos self' = Some (ee_pos_rel_of obs)) \<and>
   (\<forall>i < length (end_effectors obs2).
      length (end_effectors obs2) = length (end_effectors obs1) \<longrightarrow>
      map2 vsub (ee_pos_rel_of obs2) (ee_pos_rel_of obs1) ! i =
        vsub (ee_pos_rel_of obs2 ! i) (ee_pos_rel_of obs1 ! i))"
proof (intro conjI impI allI)
  assume "fly obs \<noteq> []"
  then show "nmf_step nmf_init obs =
        Inr (obs\<lparr> stride_diff_unmasked :=
                    Some (replicate (length (ee_pos_rel_of obs)) (0, 0)) \<rparr>,
             nmf_init\<lparr> last_end_effector_pos := Some (ee_pos_rel_of obs) \<rparr>)"
    using nmf_step_first [of obs nmf_init] by (simp add: nmf_init_def)
next
  assume a: "nmf_step self obs1 = Inr (obs1', self1)" "fly obs2 \<noteq> []"
    "length (end_effectors obs2) = length (end_effectors obs1)"
  from nmf_step_history [OF a(1)]
  have "last_end_effector_pos self1 = Some (ee_pos_rel_of obs1)" by simp
  from nmf_step_later [OF a(2) this] a(3)
  show "nmf_step self1 obs2 =
        Inr (obs2\<lparr> stride_diff_unmasked :=
                     Some (map2 vsub (ee_pos_rel_of obs2) (ee_pos_rel_of obs1)) \<rparr>,
             self1\<lparr> last_end_effector_pos := Some (ee_pos_rel_of obs2) \<rparr>)"
    by simp
next
  assume "nmf_step self obs = Inr (obs', self')"
  from nmf_step_history [OF this]
  show "last_end_effector_pos self' = Some (ee_pos_rel_of obs)" by simp
next
  fix i
  assume "i < length (end_effectors obs2)"
    "length (end_effectors obs2) = length (end_effectors obs1)"
  then show "map2 vsub (ee_pos_rel_of obs2) (ee_pos_rel_of obs1) ! i =
        vsub (ee_pos_rel_of obs2 ! i) (ee_pos_rel_of obs1 ! i)"
    by simp
qed

lemma demo_obs_frame: "ee_pos_rel_of (demo_obs x) = [(x, 1), (x + 1, - 1)]"
  by (simp add: ee_pos_rel_of_def demo_obs_def xy_def absolute_to_relative_pos_def
      heading_angle_def linalg_norm_def arctan2_def dot_def transpose2_def vsub_def Let_def)

theorem stride_difference_witness:
  "fly (demo_obs 0) \<noteq> [] \<and>
   nmf_step nmf_init (demo_obs 0) =
     Inr ((demo_obs 0)\<lparr> stride_diff_unmasked := Some [(0, 0), (0, 0)] \<rparr>,
          nmf_init\<lparr> last_end_effector_pos := Some [(0, 1), (1, - 1)] \<rparr>) \<and>
   fly (demo_obs 3) \<noteq> [] \<and>
   length (end_effectors (demo_obs 3)) = length (end_effectors (demo_obs 0)) \<and>
   nmf_step (nmf_init\<lparr> last_end_effector_pos := Some [(0, 1), (1, - 1)] \<rparr>) (demo_obs 3) =
     Inr ((demo_obs 3)\<lparr> stride_diff_unmasked := Some [(3, 0), (3, 0)] \<rparr>,
          nmf_init\<lparr> last_end_effector_pos := Some [(3, 1), (4, - 1)] \<rparr>) \<and>
   (1 :: nat) < length (end_effectors (demo_obs 3)) \<and>
   map2 vsub (ee_pos_rel_of (demo_obs 3)) (ee_pos_rel_of (demo_obs 0)) ! 1 =
     vsub (ee_pos_rel_of (demo_obs 3) ! 1) (ee_pos_rel_of (demo_obs 0) ! 1)"
proof -
  note t = stride_difference [where obs = "demo_obs 0" and self = nmf_init
      and ?obs1.0 = "demo_obs 0" and ?obs2.0 = "demo_obs 3"
      and ?obs1' = "(demo_obs 0)\<lparr> stride_diff_unmasked := Some [(0, 0), (0, 0)] \<rparr>"
      and ?self1.0 = "nmf_init\<lparr> last_end_effector_pos := Some [(0, 1), (1, - 1)] \<rparr>"]
  have f: "fly (demo_obs 0) \<noteq> []" "fly (demo_obs 3) \<noteq> []"
    "length (end_effectors (demo_obs 3)) = length (end_effectors (demo_obs 0))"
    "(1 :: nat) < length (end_effectors (demo_obs 3))"
    by (simp_all add: demo_obs_def)
  from t f(1) have 1: "nmf_step nmf_init (demo_obs 0) =
     Inr ((demo_obs 0)\<lparr> stride_diff_unmasked := Some [(0, 0), (0, 0)] \<rparr>,
          nmf_init\<lparr> last_end_effector_pos := Some [(0, 1), (1, - 1)] \<rparr>)"
    by (simp add: demo_obs_frame numeral_2_eq_2)
  from t 1 f(2,3) have 2: "nmf_step (nmf_init\<lparr> last_end_effector_pos := Some [(0, 1), (1, - 1)] \<rparr>)
       (demo_obs 3) =
     Inr ((demo_obs 3)\<lparr> stride_diff_unmasked := Some [(3, 0), (3, 0)] \<rparr>,
          nmf_init\<lparr> last_end_effector_pos := Some [(3, 1), (4, - 1)] \<rparr>)"
    by (simp add: demo_obs_frame vsub_def)
  from t f(3,4) have 3: "map2 vsub (ee_pos_rel_of (demo_obs 3)) (ee_pos_rel_of (demo_obs 0)) ! 1 =
     vsub (ee_pos_rel_of (demo_obs 3) ! 1) (ee_pos_rel_of (demo_obs 0) ! 1)"
    by blast
  from f 1 2 3 show ?thesis by blast
qed

section \<open>MovingFlyArena: invalid options\<close>

lemma choose_y_mult_invalid:
  "\<not> valid_move_direction d \<Longrightarrow>
     choose_y_mult g d r = Inl (ValueError ''Invalid move_direction'')"
  by (simp add: choose_y_mult_def valid_move_direction_def)

lemma choose_y_mult_valid:
  "valid_move_direction d \<Longrightarrow> \<exists>ym r1. choose_y_mult g d r = Inr (ym, r1)"
  by (auto simp: choose_y_mult_def valid_move_direction_def
      intro: prod.exhaust [of "choice g [- 1, 1] r"])

lemma add_ground_invalid:
  "\<not> valid_terrain t \<Longrightarrow>
     add_ground ops t xr yr bs hr seed alpha f w =
       Inl (Raised (ValueError (''Invalid terrain '' @ [CHR 0x27] @ t @ [CHR 0x27])))"
  by (simp add: add_ground_def valid_terrain_def)

lemma add_ground_valid:
  "valid_terrain t \<Longrightarrow> add_ground ops t xr yr bs hr seed alpha f w \<noteq> Inl (Raised e)"
  by (auto simp: add_ground_def valid_terrain_def split: sum.splits)

text \<open>
  C9.  Once \<open>BaseArena.__init__\<close> has returned: a \<open>move_direction\<close> other than
  \<open>"left"\<close>, \<open>"right"\<close> and \<open>"random"\<close> makes the construction raise
  \<open>ValueError("Invalid move_direction")\<close>, and with a valid \<open>move_direction\<close> a \<open>terrain\<close>
  other than \<open>"flat"\<close> and \<open>"blocks"\<close> makes it raise the \<open>ValueError\<close> that names the
  terrain.  With both options valid no \<open>raise\<close> statement of the constructor is reached.  A
  construction that returns had valid options and stored them as given, with \<open>y_mult\<close>
  \<open>1\<close> for \<open>"left"\<close> and \<open>-1\<close> for \<open>"right"\<close>: nothing is defaulted.
\<close>

theorem invalid_options_raise:
  "(base_arena_init ops = Inr w0 \<longrightarrow>
      (\<not> valid_move_direction md \<longrightarrow>
         arena_init g ops t xr yr bs hr seed alpha f rad pos speed md lat r =
           (Inl (Raised (ValueError ''Invalid move_direction'')), r)) \<and>
      (valid_move_direction md \<longrightarrow> \<not> valid_terrain t \<longrightarrow>
         fst (arena_init g ops t xr yr bs hr seed alpha f rad pos speed md lat r) =
           Inl (Raised (ValueError (''Invalid terrain '' @ [CHR 0x27] @ t @ [CHR 0x27]))))) \<and>
   (valid_move_direction md \<longrightarrow> valid_terrain t \<longrightarrow>
      (\<forall>e. fst (arena_init g ops t xr yr bs hr seed alpha f rad pos speed md lat r) \<noteq>
             Inl (Raised e))) \<and>
   (fst (arena_init g ops t xr yr bs hr seed alpha f rad pos speed md lat r) = Inr (a, w) \<longrightarrow>
      valid_move_direction md \<and> valid_terrain t \<and> move_direction a = md \<and> terrain a = t \<and>
      (md = ''left'' \<longrightarrow> y_mult a = 1) \<and> (md = ''right'' \<longrightarrow> y_mult a = - 1))"
proof (intro conjI impI allI)
  assume "base_arena_init ops = Inr w0" "\<not> valid_move_direction md"
  then show "arena_init g ops t xr yr bs hr seed alpha f rad pos speed md lat r =
      (Inl (Raised (ValueError ''Invalid move_direction'')), r)"
    by (simp add: arena_init_def choose_y_mult_invalid)
next
  assume b: "base_arena_init ops = Inr w0" and m: "valid_move_direction md"
    and nt: "\<not> valid_terrain t"
  from choose_y_mult_valid [OF m, of g r] obtain ym r1 where "choose_y_mult g md r = Inr (ym, r1)"
    by blast
  with b nt show "fst (arena_init g ops t xr yr bs hr seed alpha f rad pos speed md lat r) =
      Inl (Raised (ValueError (''Invalid terrain '' @ [CHR 0x27] @ t @ [CHR 0x27])))"
    by (simp add: arena_init_def add_ground_invalid)
next
  fix e
  assume m: "valid_move_direction md" and vt: "valid_terrain t"
  from choose_y_mult_valid [OF m, of g r] obtain ym r1 where "choose_y_mult g md r = Inr (ym, r1)"
    by blast
  with add_ground_valid [OF vt, of ops xr yr bs hr seed alpha f _ e]
  show "fst (arena_init g ops t xr yr bs hr seed alpha f rad pos speed md lat r) \<noteq>
      Inl (Raised e)"
    by (auto simp: arena_init_def Let_def split: sum.splits prod.splits)
next
  assume r: "fst (arena_init g ops t xr yr bs hr seed alpha f rad pos speed md lat r) = Inr (a, w)"
  show "valid_move_direction md"
    using r choose_y_mult_invalid [of md g r]
    by (auto simp: arena_init_def Let_def split: sum.splits prod.splits)
  show "valid_terrain t"
  proof (rule ccontr)
    assume "\<not> valid_terrain t"
    then have "add_ground ops t xr yr bs hr seed alpha f w' =
        Inl (Raised (ValueError (''Invalid terrain '' @ [CHR 0x27] @ t @ [CHR 0x27])))" for w'
      by (rule add_ground_invalid)
    with r show False
      by (simp add: arena_init_def Let_def split: sum.splits prod.splits)
  qed
  show "move_direction a = md" "terrain a = t"
    using r by (auto simp: arena_init_def Let_def split: sum.splits prod.splits)
next
  assume r: "fst (arena_init g ops t xr yr bs hr seed alpha f rad pos speed md lat r) = Inr (a, w)"
    and "md = ''left''"
  then show "y_mult a = 1"
    by (auto simp: arena_init_def choose_y_mult_def Let_def split: sum.splits prod.splits)
next
  assume r: "fst (arena_init g ops t xr yr bs hr seed alpha f rad pos speed md lat r) = Inr (a, w)"
    and "md = ''right''"
  then show "y_mult a = - 1"
    by (auto simp: arena_init_def choose_y_mult_def Let_def split: sum.splits prod.splits)
qed

lemma demo_arena_init:
  "arena_init demo_rng demo_scene ''flat'' (- 10, 25) (- 20, 20) (13 / 10) (1 / 5, 1 / 5) 0 1
     (1, 1 / 200, 1 / 10000) 1 (5, 0) 10 ''left'' 2 0 =
     (Inr (demo_arena, [''ground'', ''fly'', ''birdeye_cam'', ''birdeye_cam_zoom'']), 0)"
  by (simp add: arena_init_def choose_y_mult_def add_ground_def demo_scene_def demo_arena_def
      xy_def Let_def)

theorem invalid_options_raise_witness:
  "base_arena_init demo_scene = Inr [] \<and>
   \<not> valid_move_direction ''up'' \<and>
   arena_init demo_rng demo_scene ''flat'' (- 10, 25) (- 20, 20) (13 / 10) (1 / 5, 1 / 5) 0 1
     (1, 1 / 200, 1 / 10000) 1 (5, 0) 10 ''up'' 2 0 =
     (Inl (Raised (ValueError ''Invalid move_direction'')), 0) \<and>
   valid_move_direction ''right'' \<and> \<not> valid_terrain ''ice'' \<and>
   fst (arena_init demo_rng demo_scene ''ice'' (- 10, 25) (- 20, 20) (13 / 10) (1 / 5, 1 / 5) 0 1
     (1, 1 / 200, 1 / 10000) 1 (5, 0) 10 ''right'' 2 0) =
     Inl (Raised (ValueError (''Invalid terrain '' @ [CHR 0x27] @ ''ice'' @ [CHR 0x27]))) \<and>
   valid_move_direction ''left'' \<and> valid_terrain ''flat'' \<and>
   fst (arena_init demo_rng demo_scene ''flat'' (- 10, 25) (- 20, 20) (13 / 10) (1 / 5, 1 / 5) 0 1
     (1, 1 / 200, 1 / 10000) 1 (5, 0) 10 ''left'' 2 0) \<noteq>
     Inl (Raised (ValueError ''Invalid move_direction'')) \<and>
   fst (arena_init demo_rng demo_scene ''flat'' (- 10, 25) (- 20, 20) (13 / 10) (1 / 5, 1 / 5) 0 1
     (1, 1 / 200, 1 / 10000) 1 (5, 0) 10 ''left'' 2 0) =
     Inr (demo_arena, [''ground'', ''fly'', ''birdeye_cam'', ''birdeye_cam_zoom'']) \<and>
   move_direction demo_arena = ''left'' \<and> terrain demo_arena = ''flat'' \<and> y_mult demo_arena = 1"
proof -
  have v: "\<not> valid_move_direction ''up''" "valid_move_direction ''right''"
    "\<not> valid_terrain ''ice''" "valid_move_direction ''left''" "valid_terrain ''flat''"
    by (simp_all add: valid_move_direction_def valid_terrain_def)
  have b: "base_arena_init demo_scene = Inr []"
    by (simp add: demo_scene_def)
  from invalid_options_raise [where ops = demo_scene and ?w0.0 = "[]" and md = "''up''"
      and g = demo_rng and t = "''flat''" and xr = "(- 10, 25)" and yr = "(- 20, 20)"
      and bs = "13 / 10" and hr = "(1 / 5, 1 / 5)" and seed = 0 and alpha = 1
      and f = "(1, 1 / 200, 1 / 10000)" and rad = 1 and pos = "(5, 0)" and speed = 10
      and lat = 2 and r = 0] b v(1)
  have 1: "arena_init demo_rng demo_scene ''flat'' (- 10, 25) (- 20, 20) (13 / 10) (1 / 5, 1 / 5)
       0 1 (1, 1 / 200, 1 / 10000) 1 (5, 0) 10 ''up'' 2 0 =
     (Inl (Raised (ValueError ''Invalid move_direction'')), 0)"
    by blast
  from invalid_options_raise [where ops = demo_scene and ?w0.0 = "[]" and md = "''right''"
      and g = demo_rng and t = "''ice''" and xr = "(- 10, 25)" and yr = "(- 20, 20)"
      and bs = "13 / 10" and hr = "(1 / 5, 1 / 5)" and seed = 0 and alpha = 1
      and f = "(1, 1 / 200, 1 / 10000)" and rad = 1 and pos = "(5, 0)" and speed = 10
      and lat = 2 and r = 0] b v(2,3)
  have 2: "fst (arena_init demo_rng demo_scene ''ice'' (- 10, 25) (- 20, 20) (13 / 10)
       (1 / 5, 1 / 5) 0 1 (1, 1 / 200, 1 / 10000) 1 (5, 0) 10 ''right'' 2 0) =
     Inl (Raised (ValueError (''Invalid terrain '' @ [CHR 0x27] @ ''ice'' @ [CHR 0x27])))"
    by blast
  have i: "fst (arena_init demo_rng demo_scene ''flat'' (- 10, 25) (- 20, 20) (13 / 10)
       (1 / 5, 1 / 5) 0 1 (1, 1 / 200, 1 / 10000) 1 (5, 0) 10 ''left'' 2 0) =
     Inr (demo_arena, [''ground'', ''fly'', ''birdeye_cam'', ''birdeye_cam_zoom''])"
    by (simp add: demo_arena_init)
  note t = invalid_options_raise [where ops = demo_scene and ?w0.0 = "[]" and md = "''left''"
      and g = demo_rng and t = "''flat''" and xr = "(- 10, 25)" and yr = "(- 20, 20)"
      and bs = "13 / 10" and hr = "(1 / 5, 1 / 5)" and seed = 0 and alpha = 1
      and f = "(1, 1 / 200, 1 / 10000)" and rad = 1 and pos = "(5, 0)" and speed = 10
      and lat = 2 and r = 0 and a = demo_arena
      and w = "[''ground'', ''fly'', ''birdeye_cam'', ''birdeye_cam_zoom'']"]
  from t v(4,5)
  have 3: "fst (arena_init demo_rng demo_scene ''flat'' (- 10, 25) (- 20, 20) (13 / 10)
       (1 / 5, 1 / 5) 0 1 (1, 1 / 200, 1 / 10000) 1 (5, 0) 10 ''left'' 2 0) \<noteq>
     Inl (Raised (ValueError ''Invalid move_direction''))"
    by blast
  from t i have 4: "move_direction demo_arena = ''left''" "terrain demo_arena = ''flat''"
    "y_mult demo_arena = 1"
    by blast+
  from b v 1 2 3 4 i show ?thesis by blast
qed

section \<open>The returned drive and the stored drive\<close>

lemma step_returns_entry: "step g c = Inr ((s, a), c') \<Longrightarrow> dn_drives c s = Some a"
  by (auto simp: step_def Let_def turn_to_forward_def
      split: if_splits option.splits sum.splits)

lemma steps_return_entries:
  "steps g n c = Inr (outs, c') \<Longrightarrow> \<forall>out \<in> set outs. dn_drives c (fst out) = Some (snd out)"
proof (induction n arbitrary: c outs)
  case 0
  then show ?case by simp
next
  case (Suc n)
  from Suc.prems obtain out c1 outs1 where s: "step g c = Inr (out, c1)"
      "steps g n c1 = Inr (outs1, c')" "outs = out # outs1"
    by (auto split: sum.splits prod.splits)
  from step_returns_entry [of g c "fst out" "snd out" c1] s(1)
  have "dn_drives c (fst out) = Some (snd out)" by simp
  moreover from Suc.IH [OF s(2)] step_dn_drives [OF s(1)]
  have "\<forall>out \<in> set outs1. dn_drives c (fst out) = Some (snd out)" by simp
  ultimately show ?case using s(3) by simp
qed

lemma setitem_written: "ndarray_setitem h a i v = Inr h' \<Longrightarrow> h' ! a = (h ! a)[i := v]"
  by (auto simp: ndarray_setitem_def split: if_splits)

lemma setitem_others: "ndarray_setitem h a i v = Inr h' \<Longrightarrow> b \<noteq> a \<Longrightarrow> h' ! b = h ! b"
  by (auto simp: ndarray_setitem_def split: if_splits)

text \<open>
  C6, as the code has it.  \<open>step\<close> returns the array stored in \<open>dn_drives\<close> for the
  returned state itself, not a copy of it.  No call rebinds an entry of \<open>dn_drives\<close>, and
  \<open>step\<close> writes to no array (it has no access to the store).  A write through the returned
  reference is therefore a write to the stored entry: after \<open>a[i] = v\<close> the entry of the
  returned state reads the updated vector, and every other array is as before.
\<close>

theorem returned_drive_is_stored_array:
  "(step g c = Inr ((s, a), c') \<longrightarrow> dn_drives c s = Some a \<and> dn_drives c' = dn_drives c) \<and>
   (steps g n c = Inr (outs, c1) \<longrightarrow>
      dn_drives c1 = dn_drives c \<and>
      (\<forall>out \<in> set outs. dn_drives c (fst out) = Some (snd out))) \<and>
   (step g c = Inr ((s, a), c') \<longrightarrow> ndarray_setitem h a i v = Inr h' \<longrightarrow>
      dn_drives c' s = Some a \<and> h' ! a = (h ! a)[i := v] \<and>
      (\<forall>b. b \<noteq> a \<longrightarrow> h' ! b = h ! b))"
proof (intro conjI impI allI)
  assume s: "step g c = Inr ((s, a), c')"
  from step_returns_entry [OF s] show "dn_drives c s = Some a" .
  from step_dn_drives [OF s] show "dn_drives c' = dn_drives c" .
next
  assume s: "steps g n c = Inr (outs, c1)"
  from steps_dn_drives [OF s] show "dn_drives c1 = dn_drives c" .
  from steps_return_entries [OF s]
  show "\<forall>out \<in> set outs. dn_drives c (fst out) = Some (snd out)" .
next
  assume s: "step g c = Inr ((s, a), c')" and w: "ndarray_setitem h a i v = Inr h'"
  from step_returns_entry [OF s] step_dn_drives [OF s]
  show "dn_drives c' s = Some a" by simp
  from setitem_written [OF w] show "h' ! a = (h ! a)[i := v]" .
  fix b assume "b \<noteq> a"
  with setitem_others [OF w] show "h' ! b = h ! b" by simp
qed

lemma demo_setitem:
  "ndarray_setitem demo_heap 0 0 5 = Inr [[5, 1], [- 2 / 5, 6 / 5], [6 / 5, - 2 / 5]]"
  by (simp add: ndarray_setitem_def demo_heap_def)

text \<open>
  C6, as the specification states it, fails.  The controller built with \<open>init_time = 2\<close>
  returns \<open>FORWARD\<close> with array \<open>0\<close>, which holds \<open>[1, 1]\<close>.  After the caller sets element
  \<open>0\<close> of the returned array to \<open>5\<close>, the entry of \<open>dn_drives\<close> for \<open>FORWARD\<close> (still array
  \<open>0\<close>) reads \<open>[5, 1]\<close>, and the next call returns that same array.
\<close>

theorem returned_drive_is_copy_counterexample:
  "controller_init demo_rng 1 (1, 1) (- 2 / 5, 6 / 5) (6 / 5, - 2 / 5) (2 / 5) (1 / 10) 1 9 2 [] =
     Inr (demo_controller 2 (1 / 10), demo_heap) \<and>
   step demo_rng (demo_controller 2 (1 / 10)) =
     Inr ((FORWARD, 0), (demo_controller 2 (1 / 10))\<lparr> curr_time := 1 \<rparr>) \<and>
   demo_heap ! 0 = [1, 1] \<and>
   ndarray_setitem demo_heap 0 0 5 = Inr [[5, 1], [- 2 / 5, 6 / 5], [6 / 5, - 2 / 5]] \<and>
   dn_drives ((demo_controller 2 (1 / 10))\<lparr> curr_time := 1 \<rparr>) FORWARD = Some 0 \<and>
   [[5, 1], [- 2 / 5, 6 / 5], [6 / 5, - 2 / 5]] ! 0 \<noteq> demo_heap ! 0 \<and>
   step demo_rng ((demo_controller 2 (1 / 10))\<lparr> curr_time := 1 \<rparr>) =
     Inr ((FORWARD, 0), (demo_controller 2 (1 / 10))\<lparr> curr_time := 2 \<rparr>) \<and>
   [[5, 1], [- 2 / 5, 6 / 5], [6 / 5, - 2 / 5]] ! 0 = [5 :: real, 1]"
proof -
  have 1: "step demo_rng (demo_controller 2 (1 / 10)) =
      Inr ((FORWARD, 0), (demo_controller 2 (1 / 10))\<lparr> curr_time := 1 \<rparr>)"
    by (simp add: step_def demo_controller_def)
  have 2: "step demo_rng ((demo_controller 2 (1 / 10))\<lparr> curr_time := 1 \<rparr>) =
      Inr ((FORWARD, 0), (demo_controller 2 (1 / 10))\<lparr> curr_time := 2 \<rparr>)"
    by (simp add: step_def demo_controller_def)
  have 3: "demo_heap ! 0 = [1, 1]"
    "[[5, 1], [- 2 / 5, 6 / 5], [6 / 5, - 2 / 5]] ! 0 \<noteq> demo_heap ! 0"
    "dn_drives ((demo_controller 2 (1 / 10))\<lparr> curr_time := 1 \<rparr>) FORWARD = Some 0"
    "[[5, 1], [- 2 / 5, 6 / 5], [6 / 5, - 2 / 5]] ! 0 = [5 :: real, 1]"
    by (simp_all add: demo_heap_def demo_controller_def)
  from 1 2 3 demo_init [of "1 / 10" 2] demo_setitem show ?thesis by blast
qed

theorem returned_drive_is_stored_array_witness:
  "step demo_rng (demo_controller 2 (1 / 10)) =
     Inr ((FORWARD, 0), (demo_controller 2 (1 / 10))\<lparr> curr_time := 1 \<rparr>) \<and>
   dn_drives (demo_controller 2 (1 / 10)) FORWARD = Some 0 \<and>
   dn_drives ((demo_controller 2 (1 / 10))\<lparr> curr_time := 1 \<rparr>) =
     dn_drives (demo_controller 2 (1 / 10)) \<and>
   steps demo_rng 1 (demo_controller 2 (1 / 10)) =
     Inr ([(FORWARD, 0)], (demo_controller 2 (1 / 10))\<lparr> curr_time := 1 \<rparr>) \<and>
   dn_drives (demo_controller 2 (1 / 10)) (fst (FORWARD, 0 :: nat)) = Some (snd (FORWARD, 0 :: nat)) \<and>
   ndarray_setitem demo_heap 0 0 5 = Inr [[5, 1], [- 2 / 5, 6 / 5], [6 / 5, - 2 / 5]] \<and>
   dn_drives ((demo_controller 2 (1 / 10))\<lparr> curr_time := 1 \<rparr>) FORWARD = Some 0 \<and>
   [[5, 1], [- 2 / 5, 6 / 5], [6 / 5, - 2 / 5]] ! 0 = (demo_heap ! 0)[0 := 5] \<and>
   [[5, 1], [- 2 / 5, 6 / 5], [6 / 5, - 2 / 5]] ! 1 = demo_heap ! 1"
proof -
  have 1: "step demo_rng (demo_controller 2 (1 / 10)) =
      Inr ((FORWARD, 0), (demo_controller 2 (1 / 10))\<lparr> curr_time := 1 \<rparr>)"
    by (simp add: step_def demo_controller_def)
  then have 2: "steps demo_rng 1 (demo_controller 2 (1 / 10)) =
      Inr ([(FORWARD, 0)], (demo_controller 2 (1 / 10))\<lparr> curr_time := 1 \<rparr>)"
    by simp
  note t = returned_drive_is_stored_array [where g = demo_rng
      and c = "demo_controller 2 (1 / 10)" and s = FORWARD and a = 0
      and c' = "(demo_controller 2 (1 / 10))\<lparr> curr_time := 1 \<rparr>" and n = 1
      and outs = "[(FORWARD, 0)]" and ?c1.0 = "(demo_controller 2 (1 / 10))\<lparr> curr_time := 1 \<rparr>"
      and h = demo_heap and i = 0 and v = 5
      and h' = "[[5, 1], [- 2 / 5, 6 / 5], [6 / 5, - 2 / 5]]"]
  from t 1 have 3: "dn_drives (demo_controller 2 (1 / 10)) FORWARD = Some 0"
    "dn_drives ((demo_controller 2 (1 / 10))\<lparr> curr_time := 1 \<rparr>) =
       dn_drives (demo_controller 2 (1 / 10))"
    by blast+
  from t 2 have "\<forall>out \<in> set [(FORWARD, 0 :: nat)].
      dn_drives (demo_controller 2 (1 / 10)) (fst out) = Some (snd out)"
    by blast
  then have 4: "dn_drives (demo_controller 2 (1 / 10)) (fst (FORWARD, 0 :: nat)) =
      Some (snd (FORWARD, 0 :: nat))"
    by simp
  from t 1 demo_setitem
  have 5: "dn_drives ((demo_controller 2 (1 / 10))\<lparr> curr_time := 1 \<rparr>) FORWARD = Some 0"
    "[[5, 1], [- 2 / 5, 6 / 5], [6 / 5, - 2 / 5]] ! 0 = (demo_heap ! 0)[0 := 5]"
    "\<forall>b. b \<noteq> 0 \<longrightarrow> [[5, 1], [- 2 / 5, 6 / 5], [6 / 5, - 2 / 5]] ! b = demo_heap ! b"
    by blast+
  have "(1 :: nat) \<noteq> 0" by simp
  with 5(3) have 6: "[[5, 1], [- 2 / 5, 6 / 5], [6 / 5, - 2 / 5]] ! 1 = demo_heap ! 1"
    by blast
  from 1 2 3 4 5(1,2) 6 demo_setitem show ?thesis by blast
qed

section \<open>Reproducible runs\<close>

lemma draws_trans: "draws g r2 r3 \<Longrightarrow> draws g r1 r2 \<Longrightarrow> draws g r1 r3"
  by (induction rule: draws.induct) (auto intro: draws.intros)

lemma forward_to_turn_draws: "draws g (random_state c) (random_state (forward_to_turn g c))"
proof -
  have 1: "draws g r (snd (rs_rand g r))" for r
    by (rule draws_rand) (rule draws_none)
  have 2: "draws g r (snd (rs_choice g n (snd (rs_normal g m sd (snd (rs_rand g r))))))"
    for r n m sd
    by (intro draws_choice draws_normal 1)
  show ?thesis
    using 1 [of "random_state c"]
      2 [of "random_state c" "Suc (Suc 0)" "turn_duration_mean c" "turn_duration_std c"]
    by (auto simp: forward_to_turn_def choice_def Let_def draws_none split: prod.splits)
qed

lemma turn_to_forward_random_state:
  "turn_to_forward c = Inr c' \<Longrightarrow> random_state c' = random_state c"
  by (auto simp: turn_to_forward_def split: if_splits option.splits)

lemma step_draws: "step g c = Inr (out, c') \<Longrightarrow> draws g (random_state c) (random_state c')"
  using forward_to_turn_draws [of g c]
  by (auto simp: step_def Let_def draws_none split: if_splits option.splits sum.splits
      dest!: turn_to_forward_random_state)

lemma steps_draws: "steps g n c = Inr (outs, c') \<Longrightarrow> draws g (random_state c) (random_state c')"
proof (induction n arbitrary: c outs)
  case 0
  then show ?case by (simp add: draws_none)
next
  case (Suc n)
  from Suc.prems obtain out c1 outs1 where s: "step g c = Inr (out, c1)"
      "steps g n c1 = Inr (outs1, c')"
    by (auto split: sum.splits prod.splits)
  from draws_trans [OF Suc.IH [OF s(2)] step_draws [OF s(1)]] show ?case .
qed

lemma forward_to_turn_drives:
  "forward_to_turn g (c\<lparr> dn_drives := d \<rparr>) = (forward_to_turn g c)\<lparr> dn_drives := d \<rparr>"
  by (simp add: forward_to_turn_def Let_def split: prod.splits)

lemma turn_to_forward_drives:
  "turn_to_forward (c\<lparr> dn_drives := d \<rparr>) =
     (case turn_to_forward c of Inl e \<Rightarrow> Inl e | Inr c' \<Rightarrow> Inr (c'\<lparr> dn_drives := d \<rparr>))"
  by (simp add: turn_to_forward_def split: option.splits)

lemma step_twin:
  assumes "same_drives h c (c\<lparr> dn_drives := d \<rparr>)"
  shows "case step g c of
           Inl e \<Rightarrow> step g (c\<lparr> dn_drives := d \<rparr>) = Inl e
         | Inr (out, c') \<Rightarrow>
             (\<exists>a. step g (c\<lparr> dn_drives := d \<rparr>) = Inr ((fst out, a), c'\<lparr> dn_drives := d \<rparr>) \<and>
                  h ! snd out = h ! a \<and> same_drives h c' (c'\<lparr> dn_drives := d \<rparr>))"
proof -
  have r: "map_option (\<lambda>a. h ! a) (dn_drives c s) = map_option (\<lambda>a. h ! a) (d s)" for s
    using assms by (simp add: same_drives_def)
  show ?thesis
  proof (cases "curr_time c < init_time c")
    case True
    with r [of FORWARD] assms show ?thesis
      by (cases "dn_drives c FORWARD"; cases "d FORWARD") (simp_all add: step_def same_drives_def)
  next
    case False
    show ?thesis
    proof (cases "turn_to_forward (forward_to_turn g c)")
      case (Inl e)
      with False show ?thesis
        by (simp add: step_def forward_to_turn_drives turn_to_forward_drives)
    next
      case (Inr c2)
      have d2: "dn_drives c2 = dn_drives c"
        using Inr by (auto simp: turn_to_forward_def split: if_splits option.splits)
      from False Inr r [of "curr_state c2"] assms show ?thesis
        by (cases "dn_drives c (curr_state c2)"; cases "d (curr_state c2)")
          (simp_all add: step_def forward_to_turn_drives turn_to_forward_drives d2
            same_drives_def Let_def)
    qed
  qed
qed

lemma observed_Suc:
  "observed h (steps g (Suc n) c) =
     (case step g c of
        Inl e \<Rightarrow> Inl e
      | Inr (out, c1) \<Rightarrow>
          (case observed h (steps g n c1) of
             Inl e \<Rightarrow> Inl e
           | Inr (vals, c2) \<Rightarrow> Inr ((fst out, h ! snd out) # vals, c2)))"
  by (simp add: observed_def split: sum.splits prod.splits)

lemma steps_twin:
  "same_drives h c (c\<lparr> dn_drives := d \<rparr>) \<Longrightarrow>
     observed h (steps g n (c\<lparr> dn_drives := d \<rparr>)) = observed h (steps g n c)"
proof (induction n arbitrary: c)
  case 0
  then show ?case by (simp add: observed_def)
next
  case (Suc n)
  show ?case
  proof (cases "step g c")
    case (Inl e)
    with step_twin [OF Suc.prems, of g] show ?thesis
      by (simp add: observed_Suc del: steps.simps)
  next
    case (Inr p)
    obtain out c1 where p: "p = (out, c1)" by (cases p)
    from step_twin [OF Suc.prems, of g] Inr p
    obtain a where a: "step g (c\<lparr> dn_drives := d \<rparr>) = Inr ((fst out, a), c1\<lparr> dn_drives := d \<rparr>)"
        "h ! snd out = h ! a" "same_drives h c1 (c1\<lparr> dn_drives := d \<rparr>)"
      by auto
    from Suc.IH [OF a(3)] a(1,2) Inr p show ?thesis
      by (simp add: observed_Suc del: steps.simps split: sum.splits prod.splits)
  qed
qed

lemma init_twins:
  assumes "controller_init g dt0 fwd l r m sd lam seed it h = Inr (c1, h1)"
    and "controller_init g dt0 fwd l r m sd lam seed it h1 = Inr (c2, h2)"
  shows "c2 = c1\<lparr> dn_drives := dn_drives c2 \<rparr>" and "same_drives h2 c1 c2"
proof -
  from assms show "c2 = c1\<lparr> dn_drives := dn_drives c2 \<rparr>"
    by (auto simp: controller_init_def np_array_def split: sum.splits)
  from init_dn_drives [OF assms(1)] init_dn_drives [OF assms(2)]
  show "same_drives h2 c1 c2"
    by (simp add: same_drives_def nth_append)
qed

text \<open>
  C5.  Two controllers constructed one after the other with the same generator, seed and
  parameters (they get arrays of their own) and stepped \<open>n\<close> times each show the same
  behaviour, for every \<open>n\<close>: the same exception, or the same sequence of returned states and
  drive values and the same final attributes, the sampled turn duration and the generator
  state among them.  The generator state of a new controller is the seeded one, and any
  number of calls only draws from it: the state after the calls is reached from the state
  before them by \<open>rand\<close>, \<open>normal\<close> and \<open>choice\<close> draws alone.
\<close>

theorem runs_are_reproducible:
  "(controller_init g dt0 fwd l r m sd lam seed it h = Inr (c1, h1) \<longrightarrow>
    controller_init g dt0 fwd l r m sd lam seed it h1 = Inr (c2, h2) \<longrightarrow>
      observed h2 (steps g n c1) = observed h2 (steps g n c2) \<and>
      random_state c1 = rs_seed g seed) \<and>
   (steps g n c = Inr (outs, c') \<longrightarrow> draws g (random_state c) (random_state c'))"
proof (intro conjI impI)
  assume i: "controller_init g dt0 fwd l r m sd lam seed it h = Inr (c1, h1)"
    "controller_init g dt0 fwd l r m sd lam seed it h1 = Inr (c2, h2)"
  from init_twins [OF i] have t: "c2 = c1\<lparr> dn_drives := dn_drives c2 \<rparr>"
      "same_drives h2 c1 (c1\<lparr> dn_drives := dn_drives c2 \<rparr>)"
    by simp_all
  from steps_twin [OF t(2), of g n] t(1)
  show "observed h2 (steps g n c1) = observed h2 (steps g n c2)" by simp
  from i(1) show "random_state c1 = rs_seed g seed"
    by (auto simp: controller_init_def RandomState_def np_array_def split: if_splits)
next
  assume "steps g n c = Inr (outs, c')"
  then show "draws g (random_state c) (random_state c')" by (rule steps_draws)
qed

lemma demo_init_second:
  "controller_init demo_rng 1 (1, 1) (- 2 / 5, 6 / 5) (6 / 5, - 2 / 5) (2 / 5) sd 1 9 it demo_heap =
     Inr ((demo_controller it sd)\<lparr> dn_drives := [FORWARD \<mapsto> 3, TURN_LEFT \<mapsto> 4, TURN_RIGHT \<mapsto> 5] \<rparr>,
          demo_heap @ demo_heap)"
proof -
  have len: "length demo_heap = 3"
    by (simp add: demo_heap_def)
  have app: "[[1, 1], [- (2 / 5), 6 / 5], [6 / 5, - (2 / 5)]] = demo_heap"
    by (simp add: demo_heap_def)
  have "RandomState demo_rng 9 = Inr 9"
    by (simp add: RandomState_def demo_rng_def)
  then show ?thesis
    by (simp add: controller_init_def np_array_def demo_controller_def len app)
qed

theorem runs_are_reproducible_witness:
  "controller_init demo_rng 1 (1, 1) (- 2 / 5, 6 / 5) (6 / 5, - 2 / 5) (2 / 5) (1 / 10) 1 9 0 [] =
     Inr (demo_controller 0 (1 / 10), demo_heap) \<and>
   controller_init demo_rng 1 (1, 1) (- 2 / 5, 6 / 5) (6 / 5, - 2 / 5) (2 / 5) (1 / 10) 1 9 0
       demo_heap =
     Inr ((demo_controller 0 (1 / 10))
            \<lparr> dn_drives := [FORWARD \<mapsto> 3, TURN_LEFT \<mapsto> 4, TURN_RIGHT \<mapsto> 5] \<rparr>,
          demo_heap @ demo_heap) \<and>
   observed (demo_heap @ demo_heap) (steps demo_rng 2 (demo_controller 0 (1 / 10))) =
     observed (demo_heap @ demo_heap)
       (steps demo_rng 2
          ((demo_controller 0 (1 / 10))
             \<lparr> dn_drives := [FORWARD \<mapsto> 3, TURN_LEFT \<mapsto> 4, TURN_RIGHT \<mapsto> 5] \<rparr>)) \<and>
   random_state (demo_controller 0 (1 / 10)) = rs_seed demo_rng 9 \<and>
   steps demo_rng 1 (demo_controller 0 (1 / 10)) = Inr ([(TURN_RIGHT, 2)], demo_turning) \<and>
   draws demo_rng (random_state (demo_controller 0 (1 / 10))) (random_state demo_turning)"
proof -
  have s: "steps demo_rng 1 (demo_controller 0 (1 / 10)) = Inr ([(TURN_RIGHT, 2)], demo_turning)"
    using demo_first_step by simp
  from runs_are_reproducible [where g = demo_rng and ?dt0.0 = 1 and fwd = "(1, 1)"
      and l = "(- 2 / 5, 6 / 5)" and r = "(6 / 5, - 2 / 5)" and m = "2 / 5" and sd = "1 / 10"
      and lam = 1 and seed = 9 and it = 0 and h = "[]" and ?c1.0 = "demo_controller 0 (1 / 10)"
      and ?h1.0 = demo_heap and ?h2.0 = "demo_heap @ demo_heap" and n = 2
      and ?c2.0 = "(demo_controller 0 (1 / 10))
             \<lparr> dn_drives := [FORWARD \<mapsto> 3, TURN_LEFT \<mapsto> 4, TURN_RIGHT \<mapsto> 5] \<rparr>"]
    demo_init [of "1 / 10" 0] demo_init_second [of "1 / 10" 0]
  have 1: "observed (demo_heap @ demo_heap) (steps demo_rng 2 (demo_controller 0 (1 / 10))) =
     observed (demo_heap @ demo_heap)
       (steps demo_rng 2
          ((demo_controller 0 (1 / 10))
             \<lparr> dn_drives := [FORWARD \<mapsto> 3, TURN_LEFT \<mapsto> 4, TURN_RIGHT \<mapsto> 5] \<rparr>))"
    "random_state (demo_controller 0 (1 / 10)) = rs_seed demo_rng 9"
    by blast+
  from runs_are_reproducible [where g = demo_rng and n = 1 and c = "demo_controller 0 (1 / 10)"
      and outs = "[(TURN_RIGHT, 2)]" and c' = demo_turning] s
  have 2: "draws demo_rng (random_state (demo_controller 0 (1 / 10))) (random_state demo_turning)"
    by blast
  from 1 2 s demo_init [of "1 / 10" 0] demo_init_second [of "1 / 10" 0] show ?thesis
    by blast
qed

end
